theory Spec2Isabelle
  imports Complex_Main
begin

section \<open>Data model of \<open>ImageSegmenter\<close>\<close>

text \<open>
  The development embeds the state and the methods of the class \<open>ImageSegmenter\<close> of
  \<^verbatim>\<open>_segmenter.py\<close>. The plotting toolkit (figure, axes, lasso widget, pan and zoom,
  colour parsing, the point-in-polygon test) is outside the repository: its calls are
  taken to return normally, and the parts whose results the class reads are parameters
  of the model (\<open>toolkit\<close> below). The arrays of numpy are modelled as far as the class
  uses them: two-dimensional arrays with an element type, the comparison with a scalar,
  the assignment through a boolean index with its conversion of the value, and
  \<^verbatim>\<open>reshape\<close>. The registry of classes is a list.
\<close>

subsection \<open>Python values and exceptions\<close>

text \<open>
  The values a caller can write to the properties; \<open>PInt\<close> is a Python \<open>int\<close>. \<open>bool\<close> is
  a subclass of \<open>int\<close> in Python, so \<open>PBool\<close> passes \<^verbatim>\<open>isinstance(val, Integral)\<close>. The
  payload of a float is never inspected by the class.
\<close>

datatype pyval = PStr string | PInt int | PBool bool | PFloat real | PNone

datatype error = ValueError | TypeError | IndexError | KeyError | OverflowError

text \<open>
  A method that mutates the object either returns (\<open>Inr\<close>, with the object afterwards)
  or raises (\<open>Inl\<close>, with the exception and the object as the raise left it).
\<close>

type_synonym 'a outcome = "(error \<times> 'a) + 'a"

fun state_after :: "'a outcome \<Rightarrow> 'a" where
  "state_after (Inl (e, s)) = s"
| "state_after (Inr s) = s"

subsection \<open>Sequences and arrays\<close>

text \<open>
  Indexing a Python list or the first axis of a numpy array with an integer: a negative
  index counts from the end, an index out of range raises \<open>IndexError\<close>.
\<close>

definition py_getitem :: "'a list \<Rightarrow> int \<Rightarrow> error + 'a" where
  "py_getitem xs i =
     (let n = int (length xs);
          j = (if i < 0 then i + n else i)
      in if j < 0 \<or> n \<le> j then Inl IndexError else Inr (xs ! nat j))"

text \<open>\<^verbatim>\<open>list.index\<close>: the position of the first element equal to \<open>v\<close>.\<close>

fun list_index :: "'a list \<Rightarrow> 'a \<Rightarrow> nat option" where
  "list_index [] v = None"
| "list_index (x # xs) v = (if x = v then Some 0 else map_option Suc (list_index xs v))"

text \<open>
  The element types of the arrays: \<^verbatim>\<open>bool\<close>, the unsigned and signed integers of 8 to
  64 bits, and \<^verbatim>\<open>float64\<close>. Arrays of other element types are outside the model.
\<close>

datatype width = W8 | W16 | W32 | W64

fun bits :: "width \<Rightarrow> nat" where
  "bits W8 = 8"
| "bits W16 = 16"
| "bits W32 = 32"
| "bits W64 = 64"

datatype dtype = NpBool | NpUInt width | NpInt width | NpFloat64

text \<open>
  The conversion of a Python \<open>int\<close> to a float: the nearest number with 53 significant
  bits, a tie going to the even one, and \<open>OverflowError\<close> when that is \<open>2 ^ 1024\<close> or
  more. Every integer up to \<open>2 ^ 53\<close> in absolute value is kept.
\<close>

fun bit_length :: "nat \<Rightarrow> nat" where
  "bit_length 0 = 0"
| "bit_length (Suc n) = Suc (bit_length (Suc n div 2))"

definition round_to_float64 :: "nat \<Rightarrow> nat" where
  "round_to_float64 a =
     (let q = 2 ^ (bit_length a - 53);
          m = a div q;
          r = a mod q
      in if q < 2 * r \<or> (q = 2 * r \<and> odd m) then (m + 1) * q else m * q)"

definition float64_of_int :: "int \<Rightarrow> error + int" where
  "float64_of_int v =
     (let r = round_to_float64 (nat \<bar>v\<bar>)
      in if 2 ^ 1024 \<le> r then Inl OverflowError else Inr (sgn v * int r))"

text \<open>
  What a cell of an array of the given element type holds, read as an integer, after
  the Python \<open>int\<close> \<open>v\<close> is assigned to it, as NumPy 2 converts it: a \<^verbatim>\<open>bool\<close> cell
  holds the truth value of \<open>v\<close>, which reads as \<open>0\<close> or \<open>1\<close>; an integer cell holds \<open>v\<close>,
  and an integer out of its bounds raises \<open>OverflowError\<close>; a float cell holds \<open>v\<close> as a
  float.
\<close>

definition np_store :: "dtype \<Rightarrow> int \<Rightarrow> error + int" where
  "np_store d v =
     (case d of
        NpBool \<Rightarrow> Inr (if v = 0 then 0 else 1)
      | NpUInt w \<Rightarrow>
          (if 0 \<le> v \<and> v < 2 ^ bits w then Inr v else Inl OverflowError)
      | NpInt w \<Rightarrow>
          (if - (2 ^ (bits w - 1)) \<le> v \<and> v < 2 ^ (bits w - 1) then Inr v
           else Inl OverflowError)
      | NpFloat64 \<Rightarrow> float64_of_int v)"

text \<open>
  A two-dimensional numpy array: its shape (rows, columns), its element type and its
  cells in row-major order. An array of numbers is modelled for cells that hold
  integers, the cells of a \<^verbatim>\<open>bool\<close> array reading as \<open>0\<close> and \<open>1\<close>. The overlay has
  shape \<open>(H, W, 4)\<close> in the source; here it is an \<open>H \<times> W\<close> array whose cells are RGBA
  quadruples.
\<close>

record 'a ndarray =
  shape :: "nat \<times> nat"
  dtype :: dtype
  data :: "'a list"

definition wf_ndarray :: "'a ndarray \<Rightarrow> bool" where
  "wf_ndarray a \<longleftrightarrow> length (data a) = fst (shape a) * snd (shape a)"

text \<open>The cell at row \<open>r\<close> and column \<open>c\<close>.\<close>

definition cell :: "'a ndarray \<Rightarrow> nat \<Rightarrow> nat \<Rightarrow> 'a" where
  "cell a r c = data a ! (r * snd (shape a) + c)"

text \<open>\<^verbatim>\<open>np.zeros(shape)\<close>: a float array, here for any fill value.\<close>

definition np_full :: "nat \<times> nat \<Rightarrow> 'a \<Rightarrow> 'a ndarray" where
  "np_full sh v = \<lparr>shape = sh, dtype = NpFloat64, data = replicate (fst sh * snd sh) v\<rparr>"

text \<open>\<^verbatim>\<open>a == i\<close>: the elementwise comparison with a scalar, a \<^verbatim>\<open>bool\<close> array.\<close>

definition np_eq :: "'a ndarray \<Rightarrow> 'a \<Rightarrow> bool ndarray" where
  "np_eq a i = \<lparr>shape = shape a, dtype = NpBool, data = map (\<lambda>x. x = i) (data a)\<rparr>"

text \<open>
  \<^verbatim>\<open>a[idx] = v\<close> with a boolean array \<open>idx\<close>. numpy compares the boolean array with the
  indexed array axis by axis and raises \<open>IndexError\<close> where the sizes differ, except
  that it does not compare an axis on which the boolean array has size \<open>0\<close>. Every cell
  where \<open>idx\<close> is true receives \<open>v\<close>; a boolean array of another shape that got through
  is empty and selects nothing.
\<close>

definition axis_accepts :: "nat \<Rightarrow> nat \<Rightarrow> bool" where
  "axis_accepts b n \<longleftrightarrow> b = 0 \<or> b = n"

definition setitem_bool :: "'a ndarray \<Rightarrow> bool ndarray \<Rightarrow> 'a \<Rightarrow> error + 'a ndarray" where
  "setitem_bool a idx v =
     (if \<not> axis_accepts (fst (shape idx)) (fst (shape a)) \<or>
         \<not> axis_accepts (snd (shape idx)) (snd (shape a))
      then Inl IndexError
      else if shape idx = shape a
      then Inr (a\<lparr>data := map2 (\<lambda>b x. if b then v else x) (data idx) (data a)\<rparr>)
      else Inr a)"

text \<open>
  \<^verbatim>\<open>a[idx] = v\<close> for the label mask and a Python \<open>int\<close> \<open>v\<close>: the value is converted to
  the element type of the array first, whatever \<open>idx\<close> selects, and the cells receive
  the converted value.
\<close>

definition setitem_bool_int :: "int ndarray \<Rightarrow> bool ndarray \<Rightarrow> int \<Rightarrow> error + int ndarray" where
  "setitem_bool_int a idx v =
     (case np_store (dtype a) v of
        Inl e \<Rightarrow> Inl e
      | Inr v' \<Rightarrow> setitem_bool a idx v')"

text \<open>
  \<^verbatim>\<open>xs.reshape(sh)\<close> of a flat \<^verbatim>\<open>bool\<close> array: \<open>ValueError\<close> unless the sizes agree.
\<close>

definition reshape :: "bool list \<Rightarrow> nat \<times> nat \<Rightarrow> error + bool ndarray" where
  "reshape xs sh =
     (if length xs \<noteq> fst sh * snd sh then Inl ValueError
      else Inr \<lparr>shape = sh, dtype = NpBool, data = xs\<rparr>)"

text \<open>
  \<^verbatim>\<open>np.meshgrid(xs, ys)\<close>: two arrays with one row per element of \<open>ys\<close> and one column
  per element of \<open>xs\<close>; the first repeats \<open>xs\<close> in every row, the second holds the
  row's element of \<open>ys\<close> in every column.
\<close>

definition meshgrid :: "'a list \<Rightarrow> 'b list \<Rightarrow> 'a list list \<times> 'b list list" where
  "meshgrid xs ys = (replicate (length ys) xs, map (\<lambda>y. replicate (length xs) y) ys)"

subsection \<open>Colours, paths and the toolkit\<close>

type_synonym rgba = "real \<times> real \<times> real \<times> real"

definition transparent :: rgba where
  "transparent = (0, 0, 0, 0)"

text \<open>
  The array \<^verbatim>\<open>to_rgba_array\<close> returns is a float array, except that a two-dimensional
  integer array of RGBA rows comes back as a copy with its integer element type.
  \<^verbatim>\<open>colors[:, -1] = alpha\<close> writes the last channel of every row, and an integer array
  keeps the alpha with its fraction cut off.
\<close>

datatype color_dtype = ColFloat | ColInt

definition alpha_as :: "color_dtype \<Rightarrow> real \<Rightarrow> real" where
  "alpha_as d alpha =
     (case d of
        ColFloat \<Rightarrow> alpha
      | ColInt \<Rightarrow> (if 0 \<le> alpha then of_int \<lfloor>alpha\<rfloor> else of_int \<lceil>alpha\<rceil>))"

definition set_alpha :: "color_dtype \<Rightarrow> real \<Rightarrow> rgba list \<Rightarrow> rgba list" where
  "set_alpha d alpha cs = map (\<lambda>(r, g, b, a). (r, g, b, alpha_as d alpha)) cs"

text \<open>
  \<^verbatim>\<open>Path(verts)\<close>. The lasso widget delivers a list of at least two \<open>(x, y)\<close> pairs, from
  which the path object is built.
\<close>

datatype path = Path "(real \<times> real) list"

text \<open>
  What the class reads from matplotlib: the two default palettes, already converted by
  \<^verbatim>\<open>to_rgba_array\<close>, and the containment test of a path at one point with
  \<^verbatim>\<open>radius=0\<close>; \<^verbatim>\<open>contains_points\<close> applies it to every point of an array.
\<close>

record toolkit =
  TABLEAU_COLORS :: "rgba list"
  XKCD_COLORS :: "rgba list"
  contains_point :: "path \<Rightarrow> nat \<times> nat \<Rightarrow> bool"

definition contains_points :: "toolkit \<Rightarrow> path \<Rightarrow> (nat \<times> nat) list \<Rightarrow> bool list" where
  "contains_points tk p pts = map (contains_point tk p) pts"

subsection \<open>The object\<close>

text \<open>
  The attributes of an \<open>ImageSegmenter\<close> that the methods read or write. The image is
  kept by its first two dimensions only. \<open>mask_arr\<close> is the attribute \<^verbatim>\<open>mask\<close>: the
  default float array of zeros, or the caller's seed array as it was passed, with its
  element type. The attribute \<open>indices\<close> exists only after the first selection, and the
  dictionary \<^verbatim>\<open>_paths\<close> with its two fixed keys is the pair of fields \<open>paths_adding\<close>
  and \<open>paths_erasing\<close>.
\<close>

record segmenter =
  mask_alpha :: real
  classes :: "pyval list"
  n_classes :: nat
  mask_colors :: "rgba list"
  img_shape :: "nat \<times> nat"
  mask_arr :: "int ndarray"
  overlay :: "rgba ndarray"
  pix :: "(nat \<times> nat) list"
  cur_class_idx :: int
  erasing :: bool
  paths_adding :: "path list"
  paths_erasing :: "path list"
  indices :: "bool ndarray option"

section \<open>The properties\<close>

text \<open>
  The \<^verbatim>\<open>isinstance\<close> tests of the setters, and the reading of a value that passed
  them. \<open>True\<close> and \<open>False\<close> behave as the integers \<open>1\<close> and \<open>0\<close> wherever the class
  uses the stored index.
\<close>

fun isinstance_str :: "pyval \<Rightarrow> bool" where
  "isinstance_str (PStr x) = True"
| "isinstance_str v = False"

fun isinstance_bool :: "pyval \<Rightarrow> bool" where
  "isinstance_bool (PBool b) = True"
| "isinstance_bool v = False"

fun isinstance_Integral :: "pyval \<Rightarrow> bool" where
  "isinstance_Integral (PInt i) = True"
| "isinstance_Integral (PBool b) = True"
| "isinstance_Integral v = False"

fun bool_of :: "pyval \<Rightarrow> bool" where
  "bool_of (PBool b) = b"
| "bool_of v = False"

fun int_of :: "pyval \<Rightarrow> int" where
  "int_of (PInt i) = i"
| "int_of (PBool b) = (if b then 1 else 0)"
| "int_of v = 0"

text \<open>The setter of \<^verbatim>\<open>erasing\<close>: anything but a \<open>bool\<close> raises \<open>TypeError\<close>.\<close>

definition set_erasing :: "segmenter \<Rightarrow> pyval \<Rightarrow> segmenter outcome" where
  "set_erasing s val =
     (if \<not> isinstance_bool val then Inl (TypeError, s)
      else Inr (s\<lparr>erasing := bool_of val\<rparr>))"

text \<open>The getter of \<^verbatim>\<open>current_class\<close>.\<close>

definition get_current_class :: "segmenter \<Rightarrow> error + pyval" where
  "get_current_class s = py_getitem (classes s) (cur_class_idx s - 1)"

text \<open>
  The setter of \<^verbatim>\<open>current_class\<close>. A string is looked up in the registry and its
  position is offset by one for the background, an integer is taken as a 1-based
  index, and a value of any other type falls through both branches.
\<close>

definition set_current_class :: "segmenter \<Rightarrow> pyval \<Rightarrow> segmenter outcome" where
  "set_current_class s val =
     (if isinstance_str val then
        (if val \<notin> set (classes s) then Inl (ValueError, s)
         else (case list_index (classes s) val of
                 None \<Rightarrow> Inl (ValueError, s)
               | Some j \<Rightarrow> Inr (s\<lparr>cur_class_idx := int j + 1\<rparr>)))
      else if isinstance_Integral val then
        (if 0 < int_of val \<and> int_of val < int (n_classes s) + 1
         then Inr (s\<lparr>cur_class_idx := int_of val\<rparr>)
         else Inl (ValueError, s))
      else Inr s)"

text \<open>\<^verbatim>\<open>get_paths\<close> returns the dictionary of the two histories.\<close>

definition get_paths :: "segmenter \<Rightarrow> (string \<rightharpoonup> path list)" where
  "get_paths s = [''adding'' \<mapsto> paths_adding s, ''erasing'' \<mapsto> paths_erasing s]"

section \<open>The selection handler\<close>

text \<open>
  \<^verbatim>\<open>_onselect\<close>: the containment of every pixel coordinate, reshaped to the mask's
  shape, selects the cells that are written. The mask is written, with the conversion
  to its element type, before the colour is read and the overlay written, and the path
  is appended last.
\<close>

definition onselect :: "toolkit \<Rightarrow> segmenter \<Rightarrow> (real \<times> real) list \<Rightarrow> segmenter outcome" where
  "onselect tk s verts =
     (let p = Path verts in
      case reshape (contains_points tk p (pix s)) (shape (mask_arr s)) of
        Inl e \<Rightarrow> Inl (e, s)
      | Inr idx \<Rightarrow>
          let s1 = s\<lparr>indices := Some idx\<rparr> in
          if erasing s1 then
            (case setitem_bool_int (mask_arr s1) idx 0 of
               Inl e \<Rightarrow> Inl (e, s1)
             | Inr m \<Rightarrow>
                 let s2 = s1\<lparr>mask_arr := m\<rparr> in
                 (case setitem_bool (overlay s2) idx transparent of
                    Inl e \<Rightarrow> Inl (e, s2)
                  | Inr ov \<Rightarrow>
                      Inr (s2\<lparr>overlay := ov, paths_erasing := paths_erasing s2 @ [p]\<rparr>)))
          else
            (case setitem_bool_int (mask_arr s1) idx (cur_class_idx s1) of
               Inl e \<Rightarrow> Inl (e, s1)
             | Inr m \<Rightarrow>
                 let s2 = s1\<lparr>mask_arr := m\<rparr> in
                 (case py_getitem (mask_colors s2) (cur_class_idx s2 - 1) of
                    Inl e \<Rightarrow> Inl (e, s2)
                  | Inr col \<Rightarrow>
                      (case setitem_bool (overlay s2) idx col of
                         Inl e \<Rightarrow> Inl (e, s2)
                       | Inr ov \<Rightarrow>
                           Inr (s2\<lparr>overlay := ov,
                                   paths_adding := paths_adding s2 @ [p]\<rparr>)))))"

section \<open>The constructor\<close>

text \<open>
  The arguments of \<^verbatim>\<open>__init__\<close> that decide the state. \<open>arg_img\<close> is the shape of the
  image, \<open>arg_mask\<close> a numpy array, \<open>arg_mask_colors\<close> the result of \<^verbatim>\<open>to_rgba_array\<close> on
  the colours passed, with its element type, \<open>arg_classes\<close> a count or a list, and a
  mouse button a name or a number.
\<close>

datatype classes_spec = Count int | Names "pyval list"

datatype button = BName string | BNum int

record init_args =
  arg_img :: "nat \<times> nat"
  arg_classes :: classes_spec
  arg_mask :: "int ndarray option"
  arg_mask_colors :: "(color_dtype \<times> rgba list) option"
  arg_mask_alpha :: real
  arg_lasso_mousebutton :: button
  arg_pan_mousebutton :: button

text \<open>\<^verbatim>\<open>list(range(n))\<close>, empty for \<open>n \<le> 0\<close>.\<close>

definition py_range :: "int \<Rightarrow> int list" where
  "py_range n = map int [0..<nat n]"

text \<open>The registry: the numbers \<open>0, \<dots>, n - 1\<close> for a count, else the list as passed.\<close>

definition init_classes :: "classes_spec \<Rightarrow> pyval list" where
  "init_classes spec =
     (case spec of
        Count n \<Rightarrow> map PInt (py_range n)
      | Names xs \<Rightarrow> xs)"

text \<open>\<^verbatim>\<open>str.lower\<close> on ASCII letters, and the lookup of a button name.\<close>

definition lower_char :: "char \<Rightarrow> char" where
  "lower_char ch =
     (case map_of (zip ''ABCDEFGHIJKLMNOPQRSTUVWXYZ'' ''abcdefghijklmnopqrstuvwxyz'') ch of
        None \<Rightarrow> ch
      | Some l \<Rightarrow> l)"

definition button_dict :: "string \<rightharpoonup> int" where
  "button_dict = [''left'' \<mapsto> 1, ''middle'' \<mapsto> 2, ''right'' \<mapsto> 3]"

definition resolve_button :: "button \<Rightarrow> error + int" where
  "resolve_button b =
     (case b of
        BName nm \<Rightarrow>
          (case button_dict (map lower_char nm) of
             None \<Rightarrow> Inl KeyError
           | Some k \<Rightarrow> Inr k)
      | BNum k \<Rightarrow> Inr k)"

text \<open>
  The loop that fills the overlay from the mask, over the class indices still to do.
  For \<open>i > 0\<close> the colour \<^verbatim>\<open>mask_colors[i - 1]\<close> is read before the cells are written.
\<close>

fun build_overlay ::
  "rgba list \<Rightarrow> int ndarray \<Rightarrow> rgba ndarray \<Rightarrow> int list \<Rightarrow> error + rgba ndarray" where
  "build_overlay cols m ov [] = Inr ov"
| "build_overlay cols m ov (i # rest) =
     (let idx = np_eq m i in
      if i = 0 then
        (case setitem_bool ov idx transparent of
           Inl e \<Rightarrow> Inl e
         | Inr ov' \<Rightarrow> build_overlay cols m ov' rest)
      else
        (case py_getitem cols (i - 1) of
           Inl e \<Rightarrow> Inl e
         | Inr col \<Rightarrow>
             (case setitem_bool ov idx col of
                Inl e \<Rightarrow> Inl e
              | Inr ov' \<Rightarrow> build_overlay cols m ov' rest)))"

text \<open>
  The pixel coordinates: \<open>(column, row)\<close> for every cell, in row-major order.
\<close>

definition make_pix :: "nat \<times> nat \<Rightarrow> (nat \<times> nat) list" where
  "make_pix sh =
     (let pix_x = [0..<fst sh];
          pix_y = [0..<snd sh];
          (xv, yv) = meshgrid pix_y pix_x
      in zip (concat xv) (concat yv))"

text \<open>
  \<^verbatim>\<open>__init__\<close>, in the order of the source: the registry, the colour table with its alpha
  channel overwritten, the mask, the overlay, the mouse buttons (pan first), the pixel
  coordinates, and last the write \<^verbatim>\<open>self.current_class = 1\<close> through the setter. Before
  that write the attribute \<^verbatim>\<open>_cur_class_idx\<close> does not exist; the setter does not read
  it, and the constructor raises when the setter does.
\<close>

definition init :: "toolkit \<Rightarrow> init_args \<Rightarrow> error + segmenter" where
  "init tk a =
     (let cls = init_classes (arg_classes a);
          n = length cls;
          cols = (case arg_mask_colors a of
                    None \<Rightarrow>
                      set_alpha ColFloat (arg_mask_alpha a)
                        (if n \<le> 10 then take n (TABLEAU_COLORS tk)
                         else take n (XKCD_COLORS tk))
                  | Some (d, cs) \<Rightarrow> set_alpha d (arg_mask_alpha a) cs);
          m = (case arg_mask a of
                 None \<Rightarrow> np_full (arg_img a) 0
               | Some m' \<Rightarrow> m')
      in case build_overlay cols m (np_full (arg_img a) transparent)
                (py_range (int n + 1)) of
           Inl e \<Rightarrow> Inl e
         | Inr ov \<Rightarrow>
             (case resolve_button (arg_pan_mousebutton a) of
                Inl e \<Rightarrow> Inl e
              | Inr pan \<Rightarrow>
                  (case resolve_button (arg_lasso_mousebutton a) of
                     Inl e \<Rightarrow> Inl e
                   | Inr lasso \<Rightarrow>
                       (case set_current_class
                               \<lparr>mask_alpha = arg_mask_alpha a, classes = cls,
                                n_classes = n, mask_colors = cols,
                                img_shape = arg_img a, mask_arr = m, overlay = ov,
                                pix = make_pix (arg_img a), cur_class_idx = 0,
                                erasing = False, paths_adding = [],
                                paths_erasing = [], indices = None\<rparr>
                               (PInt 1) of
                          Inl (e, s) \<Rightarrow> Inl e
                        | Inr s \<Rightarrow> Inr s))))"

section \<open>Sequences of calls\<close>

text \<open>
  What can happen to an object after construction: a completed lasso gesture and writes
  to the two properties. A call that raises leaves the object as the raise left it, and
  the next call goes on from there.
\<close>

datatype event = Select "(real \<times> real) list" | SetCurrentClass pyval | SetErasing pyval

fun step :: "toolkit \<Rightarrow> segmenter \<Rightarrow> event \<Rightarrow> segmenter outcome" where
  "step tk s (Select verts) = onselect tk s verts"
| "step tk s (SetCurrentClass v) = set_current_class s v"
| "step tk s (SetErasing v) = set_erasing s v"

fun run :: "toolkit \<Rightarrow> segmenter \<Rightarrow> event list \<Rightarrow> segmenter" where
  "run tk s [] = s"
| "run tk s (ev # evs) = run tk (state_after (step tk s ev)) evs"

section \<open>Notions used by the properties\<close>

text \<open>
  The consistency of the attributes that construction sets up and that every call
  keeps: the registry and its length, a colour for every class, mask and overlay of the
  image's shape, the pixel coordinates of the image, and a current class index between
  \<open>1\<close> and the number of classes.
\<close>

definition state_ok :: "segmenter \<Rightarrow> bool" where
  "state_ok s \<longleftrightarrow>
     n_classes s = length (classes s) \<and>
     n_classes s \<le> length (mask_colors s) \<and>
     shape (mask_arr s) = img_shape s \<and>
     shape (overlay s) = img_shape s \<and>
     wf_ndarray (mask_arr s) \<and>
     wf_ndarray (overlay s) \<and>
     pix s = make_pix (img_shape s) \<and>
     0 < cur_class_idx s \<and>
     cur_class_idx s \<le> int (n_classes s)"

text \<open>
  A seed mask passed to the constructor is a numpy array, so its data fill its shape,
  and it has the first two dimensions of the image.
\<close>

definition seed_fits :: "init_args \<Rightarrow> bool" where
  "seed_fits a =
     (case arg_mask a of
        None \<Rightarrow> True
      | Some m \<Rightarrow> wf_ndarray m \<and> shape m = arg_img a)"

text \<open>
  An element type that holds every class index from \<open>0\<close> to \<open>n\<close> as it is, as
  \<^verbatim>\<open>float64\<close>, the element type of the default mask, does for every \<open>n\<close> up to \<open>2 ^ 53\<close>.
\<close>

definition stores_exactly :: "dtype \<Rightarrow> nat \<Rightarrow> bool" where
  "stores_exactly d n \<longleftrightarrow> list_all (\<lambda>v. np_store d v = Inr v) (py_range (int n + 1))"

text \<open>
  The cells a boolean selection writes: the effect of \<open>setitem_bool\<close> when the shapes
  agree.
\<close>

definition paint :: "'a ndarray \<Rightarrow> bool list \<Rightarrow> 'a \<Rightarrow> 'a ndarray" where
  "paint a bs v = a\<lparr>data := map2 (\<lambda>b x. if b then v else x) bs (data a)\<rparr>"

text \<open>
  The overlay as the specification describes it, a function of the label mask and the
  colour table: fully transparent where the mask is \<open>0\<close>, else the colour-table entry
  of that class index (the table is 1-based, the list 0-based).
\<close>

definition overlay_of :: "rgba list \<Rightarrow> int \<Rightarrow> rgba" where
  "overlay_of cols v = (if v = 0 then transparent else cols ! nat (v - 1))"

definition in_sync :: "segmenter \<Rightarrow> bool" where
  "in_sync s \<longleftrightarrow>
     shape (overlay s) = shape (mask_arr s) \<and>
     list_all (\<lambda>v. 0 \<le> v \<and> v \<le> int (n_classes s)) (data (mask_arr s)) \<and>
     data (overlay s) = map (overlay_of (mask_colors s)) (data (mask_arr s))"

text \<open>The seed mask, when there is one, holds class indices between \<open>0\<close> and \<open>N\<close>.\<close>

definition seed_in_range :: "init_args \<Rightarrow> nat \<Rightarrow> bool" where
  "seed_in_range a n =
     (case arg_mask a of
        None \<Rightarrow> True
      | Some m \<Rightarrow> list_all (\<lambda>v. 0 \<le> v \<and> v \<le> int n) (data m))"

section \<open>A toolkit and arguments for concrete runs\<close>

text \<open>
  For evaluating the model at concrete inputs: a containment test that is exact for
  axis-parallel rectangles (a point is inside when it lies strictly between the least
  and the greatest vertex coordinate on both axes), and the first two Tableau colours
  (\<^verbatim>\<open>tab:blue\<close>, \<^verbatim>\<open>tab:orange\<close>). The concrete runs below have at most two classes.
\<close>

definition box_contains :: "path \<Rightarrow> nat \<times> nat \<Rightarrow> bool" where
  "box_contains p pt =
     (case p of
        Path vs \<Rightarrow>
          list_ex (\<lambda>v. fst v < real (fst pt)) vs \<and>
          list_ex (\<lambda>v. real (fst pt) < fst v) vs \<and>
          list_ex (\<lambda>v. snd v < real (snd pt)) vs \<and>
          list_ex (\<lambda>v. real (snd pt) < snd v) vs)"

definition example_toolkit :: toolkit where
  "example_toolkit =
     \<lparr>TABLEAU_COLORS = [(31 / 255, 119 / 255, 180 / 255, 1), (1, 127 / 255, 14 / 255, 1)],
      XKCD_COLORS = [],
      contains_point = box_contains\<rparr>"

text \<open>
  A \<open>2 \<times> 2\<close> image, two classes, every other argument at its default. The rectangle
  \<open>centre_square\<close> contains no pixel, \<open>whole_image\<close> contains all four, and \<open>left_column\<close>
  the two pixels with \<open>x = 0\<close>.
\<close>

definition example_args :: init_args where
  "example_args =
     \<lparr>arg_img = (2, 2), arg_classes = Count 2, arg_mask = None, arg_mask_colors = None,
      arg_mask_alpha = 3 / 4, arg_lasso_mousebutton = BName ''left'',
      arg_pan_mousebutton = BName ''middle''\<rparr>"

definition example_state :: segmenter where
  "example_state =
     \<lparr>mask_alpha = 3 / 4, classes = [PInt 0, PInt 1], n_classes = 2,
      mask_colors = [(31 / 255, 119 / 255, 180 / 255, 3 / 4), (1, 127 / 255, 14 / 255, 3 / 4)],
      img_shape = (2, 2),
      mask_arr = \<lparr>shape = (2, 2), dtype = NpFloat64, data = [0, 0, 0, 0]\<rparr>,
      overlay = \<lparr>shape = (2, 2), dtype = NpFloat64,
                  data = [(0, 0, 0, 0), (0, 0, 0, 0), (0, 0, 0, 0), (0, 0, 0, 0)]\<rparr>,
      pix = [(0, 0), (1, 0), (0, 1), (1, 1)], cur_class_idx = 1, erasing = False,
      paths_adding = [], paths_erasing = [], indices = None\<rparr>"

definition centre_square :: "(real \<times> real) list" where
  "centre_square = [(1 / 4, 1 / 4), (3 / 4, 1 / 4), (3 / 4, 3 / 4), (1 / 4, 3 / 4)]"

definition whole_image :: "(real \<times> real) list" where
  "whole_image = [(- 1, - 1), (2, - 1), (2, 2), (- 1, 2)]"

definition left_column :: "(real \<times> real) list" where
  "left_column = [(- 1 / 2, - 1), (1 / 2, - 1), (1 / 2, 2), (- 1 / 2, 2)]"

text \<open>
  The rectangle \<open>top_row\<close> contains the two pixels with \<open>y = 0\<close>, and \<open>far_away\<close> lies
  outside the bounds of the image.
\<close>

definition top_row :: "(real \<times> real) list" where
  "top_row = [(- 1, - 1 / 2), (2, - 1 / 2), (2, 1 / 2), (- 1, 1 / 2)]"

definition far_away :: "(real \<times> real) list" where
  "far_away = [(5, 5), (6, 5), (6, 6), (5, 6)]"

text \<open>
  Variants of the arguments and of the object: a seed mask of element type \<^verbatim>\<open>uint8\<close>,
  colour lists of one and of three entries for the two classes, and a registry of
  names.
\<close>

definition seeded_args :: init_args where
  "seeded_args =
     example_args\<lparr>arg_mask := Some \<lparr>shape = (2, 2), dtype = NpUInt W8, data = [0, 2, 1, 0]\<rparr>\<rparr>"

definition short_colors_args :: init_args where
  "short_colors_args = example_args\<lparr>arg_mask_colors := Some (ColFloat, [(1, 0, 0, 1)])\<rparr>"

definition long_colors_args :: init_args where
  "long_colors_args =
     example_args\<lparr>arg_mask_colors :=
       Some (ColFloat, [(1, 0, 0, 1), (0, 1, 0, 1), (0, 0, 1, 1)])\<rparr>"

text \<open>
  A seed mask of zeros of element type \<^verbatim>\<open>bool\<close>, and the object that construction
  builds from it.
\<close>

definition bool_seed_args :: init_args where
  "bool_seed_args =
     example_args\<lparr>arg_mask := Some \<lparr>shape = (2, 2), dtype = NpBool, data = [0, 0, 0, 0]\<rparr>\<rparr>"

definition bool_seed_state :: segmenter where
  "bool_seed_state =
     example_state\<lparr>mask_arr := \<lparr>shape = (2, 2), dtype = NpBool, data = [0, 0, 0, 0]\<rparr>\<rparr>"

text \<open>
  That object with the second class current, and as the selection of \<open>left_column\<close>
  leaves it.
\<close>

definition bool_seed_class2 :: segmenter where
  "bool_seed_class2 = bool_seed_state\<lparr>cur_class_idx := 2\<rparr>"

definition bool_seed_painted :: segmenter where
  "bool_seed_painted =
     bool_seed_class2
       \<lparr>mask_arr := \<lparr>shape = (2, 2), dtype = NpBool, data = [1, 0, 1, 0]\<rparr>,
        overlay := \<lparr>shape = (2, 2), dtype = NpFloat64,
                     data = [(1, 127 / 255, 14 / 255, 3 / 4), (0, 0, 0, 0),
                             (1, 127 / 255, 14 / 255, 3 / 4), (0, 0, 0, 0)]\<rparr>,
        paths_adding := [Path left_column],
        indices := Some \<lparr>shape = (2, 2), dtype = NpBool,
                          data = [True, False, True, False]\<rparr>\<rparr>"

text \<open>
  A seed mask of zeros of element type \<^verbatim>\<open>uint8\<close> with 256 classes, each with the colour
  red passed explicitly, and the object that construction builds from it.
\<close>

definition uint8_args :: init_args where
  "uint8_args =
     example_args\<lparr>arg_classes := Count 256,
       arg_mask := Some \<lparr>shape = (2, 2), dtype = NpUInt W8, data = [0, 0, 0, 0]\<rparr>,
       arg_mask_colors := Some (ColFloat, replicate 256 (1, 0, 0, 1))\<rparr>"

definition uint8_state :: segmenter where
  "uint8_state =
     example_state\<lparr>classes := map PInt (py_range 256), n_classes := 256,
       mask_colors := replicate 256 (1, 0, 0, 3 / 4),
       mask_arr := \<lparr>shape = (2, 2), dtype = NpUInt W8, data = [0, 0, 0, 0]\<rparr>\<rparr>"

definition named_state :: segmenter where
  "named_state = example_state\<lparr>classes := [PStr ''cell'', PStr ''nucleus'']\<rparr>"

text \<open>That object with the last class current.\<close>

definition uint8_class256 :: segmenter where
  "uint8_class256 = uint8_state\<lparr>cur_class_idx := 256\<rparr>"

text \<open>
  The registry and the range of the current class index, which no call changes once the
  constructor has returned.
\<close>

definition index_ok :: "segmenter \<Rightarrow> pyval list \<Rightarrow> bool" where
  "index_ok s cls \<longleftrightarrow>
     classes s = cls \<and> n_classes s = length cls \<and>
     1 \<le> cur_class_idx s \<and> cur_class_idx s \<le> int (length cls)"

section \<open>Lemmas about the model\<close>

subsection \<open>The pixel coordinates\<close>

lemma length_concat_replicate: "length (concat (replicate h xs)) = h * length xs"
  by (induction h) auto

lemma length_concat_rows: "length (concat (map (\<lambda>y. replicate w y) ys)) = length ys * w"
  by (induction ys) auto

lemma nth_concat_replicate:
  "r < h \<Longrightarrow> c < length xs \<Longrightarrow> concat (replicate h xs) ! (r * length xs + c) = xs ! c"
proof (induction h arbitrary: r)
  case 0
  then show ?case by simp
next
  case (Suc h)
  show ?case
  proof (cases r)
    case 0
    with Suc.prems show ?thesis by (simp add: nth_append)
  next
    case (Suc r')
    with Suc.prems have "r' < h" by simp
    from Suc.IH [OF this Suc.prems(2)] Suc show ?thesis
      by (simp add: nth_append)
  qed
qed

lemma nth_concat_rows:
  "r < length ys \<Longrightarrow> c < w \<Longrightarrow> concat (map (\<lambda>y. replicate w y) ys) ! (r * w + c) = ys ! r"
proof (induction ys arbitrary: r)
  case Nil
  then show ?case by simp
next
  case (Cons y ys)
  show ?case
  proof (cases r)
    case 0
    with Cons.prems show ?thesis by (simp add: nth_append)
  next
    case (Suc r')
    with Cons.prems have "r' < length ys" by simp
    from Cons.IH [OF this Cons.prems(2)] Suc show ?thesis
      by (simp add: nth_append)
  qed
qed

lemma length_make_pix: "length (make_pix sh) = fst sh * snd sh"
  by (simp add: make_pix_def meshgrid_def length_concat_replicate length_concat_rows)

lemma cell_index_less: "r < h \<Longrightarrow> c < w \<Longrightarrow> r * w + c < h * (w::nat)"
proof -
  assume r: "r < h" and c: "c < w"
  have "r * w + c < r * w + w" using c by simp
  also have "\<dots> = Suc r * w" by simp
  also have "\<dots> \<le> h * w" using r by (intro mult_le_mono1) simp
  finally show ?thesis .
qed

lemma nth_make_pix:
  "r < fst sh \<Longrightarrow> c < snd sh \<Longrightarrow> make_pix sh ! (r * snd sh + c) = (c, r)"
  using nth_concat_replicate [of r "fst sh" c "[0..<snd sh]"]
        nth_concat_rows [of r "[0..<fst sh]" c "snd sh"]
        cell_index_less [of r "fst sh" c "snd sh"]
  by (simp add: make_pix_def meshgrid_def length_concat_replicate length_concat_rows)

subsection \<open>Writes through a boolean selection\<close>

lemma setitem_bool_paint:
  "shape idx = shape a \<Longrightarrow> setitem_bool a idx v = Inr (paint a (data idx) v)"
  by (simp add: setitem_bool_def paint_def axis_accepts_def)

lemma dtype_paint: "dtype (paint a bs v) = dtype a"
  by (simp add: paint_def)

subsection \<open>What the element types hold\<close>

lemma np_store_zero: "np_store d 0 = Inr 0"
  by (cases d) (simp_all add: np_store_def float64_of_int_def round_to_float64_def)

lemma bit_length_le: "a < 2 ^ n \<Longrightarrow> bit_length a \<le> n"
proof (induction n arbitrary: a)
  case 0
  then show ?case by simp
next
  case (Suc n)
  show ?case
  proof (cases a)
    case 0
    then show ?thesis by simp
  next
    case (Suc a')
    have "Suc a' div 2 < 2 ^ n" using Suc.prems Suc by simp
    then have "bit_length (Suc a' div 2) \<le> n" by (rule Suc.IH)
    with Suc show ?thesis by simp
  qed
qed

lemma bit_length_power: "bit_length (2 ^ n) = Suc n"
proof (induction n)
  case 0
  show ?case by simp
next
  case (Suc n)
  obtain k where k: "(2::nat) ^ Suc n = Suc k" by (cases "(2::nat) ^ Suc n") simp_all
  have "bit_length (2 ^ Suc n) = Suc (bit_length (2 ^ Suc n div 2))"
    unfolding k by simp
  with Suc show ?case by simp
qed

lemma round_to_float64_exact: "a \<le> 2 ^ 53 \<Longrightarrow> round_to_float64 a = a"
proof (cases "a = 2 ^ 53")
  case True
  with bit_length_power [of 53] show ?thesis
    by (simp add: round_to_float64_def Let_def)
next
  case False
  assume "a \<le> 2 ^ 53"
  with False have "a < 2 ^ 53" by simp
  then have "bit_length a - 53 = 0" using bit_length_le [of a 53] by simp
  then show ?thesis by (simp add: round_to_float64_def)
qed

lemma float64_exact: "\<bar>v\<bar> \<le> 2 ^ 53 \<Longrightarrow> np_store NpFloat64 v = Inr v"
proof -
  assume v: "\<bar>v\<bar> \<le> 2 ^ 53"
  then have "nat \<bar>v\<bar> \<le> 2 ^ 53" by simp
  then have r: "round_to_float64 (nat \<bar>v\<bar>) = nat \<bar>v\<bar>" by (rule round_to_float64_exact)
  have "nat \<bar>v\<bar> < 2 ^ 1024"
  proof -
    have "nat \<bar>v\<bar> \<le> 2 ^ 53" using v by simp
    also have "\<dots> < (2::nat) ^ 1024" by (rule power_strict_increasing) simp_all
    finally show ?thesis .
  qed
  moreover have "sgn v * \<bar>v\<bar> = v" by (simp add: mult_sgn_abs)
  ultimately show ?thesis
    by (simp add: np_store_def float64_of_int_def r)
qed

lemma stores_exactlyD:
  assumes "stores_exactly d n" and "0 \<le> v" and "v \<le> int n"
  shows "np_store d v = Inr v"
proof -
  have all: "\<forall>k\<in>{0..<nat (int n + 1)}. np_store d (int k) = Inr (int k)"
    using assms(1) by (simp add: stores_exactly_def list_all_iff py_range_def)
  have "nat v \<in> {0..<nat (int n + 1)}" using assms(2,3) by auto
  with all have "np_store d (int (nat v)) = Inr (int (nat v))" by blast
  with assms(2) show ?thesis by simp
qed

lemma shape_paint: "shape (paint a bs v) = shape a"
  by (simp add: paint_def)

lemma length_paint: "length bs = length (data a) \<Longrightarrow> length (data (paint a bs v)) = length (data a)"
  by (simp add: paint_def)

lemma wf_paint: "wf_ndarray a \<Longrightarrow> length bs = length (data a) \<Longrightarrow> wf_ndarray (paint a bs v)"
  by (simp add: paint_def wf_ndarray_def)

lemma nth_paint:
  "k < length (data a) \<Longrightarrow> length bs = length (data a) \<Longrightarrow>
   data (paint a bs v) ! k = (if bs ! k then v else data a ! k)"
  by (simp add: paint_def)

lemma cell_paint:
  assumes "wf_ndarray a" and "length bs = length (data a)"
    and "r < fst (shape a)" and "c < snd (shape a)"
  shows "cell (paint a bs v) r c = (if bs ! (r * snd (shape a) + c) then v else cell a r c)"
proof -
  have "r * snd (shape a) + c < length (data a)"
    using assms(1,3,4) by (simp add: wf_ndarray_def cell_index_less)
  then show ?thesis
    using assms(2) by (simp add: cell_def shape_paint nth_paint)
qed

subsection \<open>The selection handler on a consistent object\<close>

lemma py_getitem_nat:
  "0 \<le> i \<Longrightarrow> i < int (length xs) \<Longrightarrow> py_getitem xs i = Inr (xs ! nat i)"
  by (simp add: py_getitem_def Let_def)

lemma py_getitem_too_large:
  "int (length xs) \<le> i \<Longrightarrow> py_getitem xs i = Inl IndexError"
  by (simp add: py_getitem_def Let_def)

lemma onselect_result:
  assumes "state_ok s"
    and "np_store (dtype (mask_arr s)) (if erasing s then 0 else cur_class_idx s) = Inr v"
  shows "onselect tk s verts =
     Inr (let bs = map (contains_point tk (Path verts)) (make_pix (img_shape s));
              s1 = s\<lparr>indices := Some \<lparr>shape = img_shape s, dtype = NpBool, data = bs\<rparr>\<rparr>
          in if erasing s
             then s1\<lparr>mask_arr := paint (mask_arr s) bs v,
                     overlay := paint (overlay s) bs transparent,
                     paths_erasing := paths_erasing s @ [Path verts]\<rparr>
             else s1\<lparr>mask_arr := paint (mask_arr s) bs v,
                     overlay := paint (overlay s) bs (mask_colors s ! nat (cur_class_idx s - 1)),
                     paths_adding := paths_adding s @ [Path verts]\<rparr>)"
proof -
  let ?bs = "map (contains_point tk (Path verts)) (make_pix (img_shape s))"
  let ?idx = "\<lparr>shape = img_shape s, dtype = NpBool, data = ?bs\<rparr>"
  have sh: "shape (mask_arr s) = img_shape s" "shape (overlay s) = img_shape s"
    and px: "pix s = make_pix (img_shape s)"
    using assms(1) by (simp_all add: state_ok_def)
  have re: "reshape (contains_points tk (Path verts) (pix s)) (shape (mask_arr s)) = Inr ?idx"
    by (simp add: reshape_def contains_points_def px sh length_make_pix)
  have m: "setitem_bool (mask_arr s) ?idx w = Inr (paint (mask_arr s) ?bs w)" for w
    using setitem_bool_paint [of ?idx "mask_arr s" w] sh by simp
  have ov: "setitem_bool (overlay s) ?idx w = Inr (paint (overlay s) ?bs w)" for w
    using setitem_bool_paint [of ?idx "overlay s" w] sh by simp
  have "0 \<le> cur_class_idx s - 1" "cur_class_idx s - 1 < int (length (mask_colors s))"
    using assms(1) by (simp_all add: state_ok_def)
  then have col: "py_getitem (mask_colors s) (cur_class_idx s - 1)
      = Inr (mask_colors s ! nat (cur_class_idx s - 1))"
    by (rule py_getitem_nat)
  show ?thesis
    using assms(2)
    by (cases "erasing s") (simp_all add: onselect_def Let_def re setitem_bool_int_def m ov col)
qed

lemma onselect_raises:
  assumes "state_ok s"
    and "np_store (dtype (mask_arr s)) (if erasing s then 0 else cur_class_idx s) = Inl e"
  shows "onselect tk s verts =
     Inl (e, s\<lparr>indices := Some \<lparr>shape = img_shape s, dtype = NpBool,
                  data = map (contains_point tk (Path verts)) (make_pix (img_shape s))\<rparr>\<rparr>)"
proof -
  have sh: "shape (mask_arr s) = img_shape s" and px: "pix s = make_pix (img_shape s)"
    using assms(1) by (simp_all add: state_ok_def)
  have re: "reshape (contains_points tk (Path verts) (pix s)) (shape (mask_arr s))
      = Inr \<lparr>shape = img_shape s, dtype = NpBool,
             data = map (contains_point tk (Path verts)) (make_pix (img_shape s))\<rparr>"
    by (simp add: reshape_def contains_points_def px sh length_make_pix)
  show ?thesis
    using assms(2)
    by (cases "erasing s") (simp_all add: onselect_def Let_def re setitem_bool_int_def)
qed

lemma state_ok_onselect:
  assumes "state_ok s"
  shows "state_ok (state_after (onselect tk s verts))"
proof (cases "np_store (dtype (mask_arr s)) (if erasing s then 0 else cur_class_idx s)")
  case (Inl e)
  show ?thesis
    using assms by (simp add: onselect_raises [OF assms Inl] state_ok_def)
next
  case (Inr v)
  let ?bs = "map (contains_point tk (Path verts)) (make_pix (img_shape s))"
  have len: "length ?bs = length (data (mask_arr s))" "length ?bs = length (data (overlay s))"
    using assms by (simp_all add: state_ok_def wf_ndarray_def length_make_pix)
  have "wf_ndarray (paint (mask_arr s) ?bs w)" for w
    using assms len by (simp add: state_ok_def wf_paint)
  moreover have "wf_ndarray (paint (overlay s) ?bs w)" for w
    using assms len by (simp add: state_ok_def wf_paint)
  ultimately show ?thesis
    using assms by (simp add: onselect_result [OF assms Inr] Let_def state_ok_def shape_paint)
qed

subsection \<open>Every call keeps the object consistent\<close>

lemma state_ok_set_erasing: "state_ok s \<Longrightarrow> state_ok (state_after (set_erasing s v))"
  by (simp add: set_erasing_def state_ok_def)

lemma list_index_less: "list_index xs v = Some j \<Longrightarrow> j < length xs \<and> xs ! j = v"
  by (induction xs arbitrary: j) (auto split: if_splits)

lemma list_index_member: "v \<in> set xs \<Longrightarrow> \<exists>j. list_index xs v = Some j"
  by (induction xs) auto

lemma state_ok_set_current_class:
  assumes "state_ok s"
  shows "state_ok (state_after (set_current_class s v))"
proof (cases "list_index (classes s) v")
  case None
  with assms show ?thesis by (simp add: set_current_class_def state_ok_def)
next
  case (Some j)
  then have "j < length (classes s)" by (simp add: list_index_less)
  with Some assms show ?thesis
    by (simp add: set_current_class_def state_ok_def)
qed

lemma state_ok_step: "state_ok s \<Longrightarrow> state_ok (state_after (step tk s ev))"
  by (cases ev) (simp_all add: state_ok_onselect state_ok_set_current_class state_ok_set_erasing)

lemma state_ok_run: "state_ok s \<Longrightarrow> state_ok (run tk s evs)"
  by (induction evs arbitrary: s) (simp_all add: state_ok_step)

subsection \<open>The overlay loop of the constructor\<close>

lemma build_overlay_Inr:
  assumes "build_overlay cols m ov js = Inr ov'"
    and "\<forall>j\<in>set js. 0 \<le> j"
    and "length (data m) = length (data ov)"
    and "shape m = shape ov"
  shows "shape ov' = shape ov \<and> length (data ov') = length (data ov) \<and>
         dtype ov' = dtype ov \<and>
         (\<forall>j\<in>set js. j \<le> int (length cols)) \<and>
         (\<forall>k<length (data ov). data ov' ! k =
             (if data m ! k \<in> set js then overlay_of cols (data m ! k) else data ov ! k))"
  using assms
proof (induction js arbitrary: ov)
  case Nil
  then show ?case by simp
next
  case (Cons i rest)
  let ?idx = "np_eq m i"
  have i0: "0 \<le> i" using Cons.prems(2) by simp
  have rest0: "\<forall>j\<in>set rest. 0 \<le> j" using Cons.prems(2) by simp
  have shm: "shape m = shape ov" using Cons.prems(4) .
  then have sh: "shape ?idx = shape ov" by (simp add: np_eq_def)
  have iK: "i \<le> int (length cols)"
  proof (rule ccontr)
    assume "\<not> i \<le> int (length cols)"
    then have "py_getitem cols (i - 1) = Inl IndexError" "i \<noteq> 0"
      by (simp_all add: py_getitem_too_large)
    with Cons.prems(1) show False by (simp add: Let_def)
  qed
  define col where "col = overlay_of cols i"
  have "i \<noteq> 0 \<Longrightarrow> py_getitem cols (i - 1) = Inr col"
    using i0 iK by (simp add: py_getitem_nat col_def overlay_of_def)
  moreover have "i = 0 \<Longrightarrow> col = transparent"
    by (simp add: col_def overlay_of_def)
  ultimately have rec: "build_overlay cols m (paint ov (data ?idx) col) rest = Inr ov'"
    using Cons.prems(1) setitem_bool_paint [OF sh] by (cases "i = 0") (simp_all add: Let_def)
  have len: "length (data ?idx) = length (data ov)"
    using Cons.prems(3) by (simp add: np_eq_def)
  have len': "length (data m) = length (data (paint ov (data ?idx) col))"
    using Cons.prems(3) len by (simp add: length_paint)
  have shm': "shape m = shape (paint ov (data ?idx) col)"
    using shm by (simp add: shape_paint)
  note IH = Cons.IH [OF rec rest0 len' shm']
  have cells: "data ov' ! k =
      (if data m ! k \<in> set (i # rest) then overlay_of cols (data m ! k) else data ov ! k)"
    if k: "k < length (data ov)" for k
  proof -
    have "data ov' ! k = (if data m ! k \<in> set rest then overlay_of cols (data m ! k)
                          else data (paint ov (data ?idx) col) ! k)"
      using IH k len by (simp add: length_paint)
    moreover have "data (paint ov (data ?idx) col) ! k = (if data m ! k = i then col else data ov ! k)"
      using k len Cons.prems(3) by (simp add: nth_paint np_eq_def)
    ultimately show ?thesis by (auto simp: col_def)
  qed
  show ?case
    using IH iK cells len by (simp add: shape_paint length_paint dtype_paint)
qed

lemma set_py_range: "set (py_range n) = {j. 0 \<le> j \<and> j < n}"
proof -
  have "j \<in> int ` {0..<nat n} \<longleftrightarrow> 0 \<le> j \<and> j < n" for j
    by (auto simp: image_iff intro: bexI [of _ "nat j"])
  then show ?thesis by (auto simp: py_range_def)
qed

lemma length_py_range: "length (py_range n) = nat n"
  by (simp add: py_range_def)

lemma build_overlay_total:
  assumes "shape m = shape ov"
    and "\<forall>j\<in>set js. 0 \<le> j \<and> j \<le> int (length cols)"
  shows "\<exists>ov'. build_overlay cols m ov js = Inr ov'"
  using assms
proof (induction js arbitrary: ov)
  case Nil
  then show ?case by simp
next
  case (Cons i rest)
  have sh: "shape (np_eq m i) = shape ov" using Cons.prems(1) by (simp add: np_eq_def)
  have step: "setitem_bool ov (np_eq m i) v = Inr (paint ov (data (np_eq m i)) v)" for v
    by (rule setitem_bool_paint [OF sh])
  have next_ok: "\<exists>ov'. build_overlay cols m (paint ov (data (np_eq m i)) v) rest = Inr ov'" for v
    using Cons.IH [of "paint ov (data (np_eq m i)) v"] Cons.prems by (simp add: shape_paint)
  show ?case
  proof (cases "i = 0")
    case True
    with step next_ok show ?thesis by (simp add: Let_def)
  next
    case False
    with Cons.prems(2) have "0 \<le> i - 1" "i - 1 < int (length cols)" by simp_all
    then have "py_getitem cols (i - 1) = Inr (cols ! nat (i - 1))" by (rule py_getitem_nat)
    with False step next_ok show ?thesis by (simp add: Let_def)
  qed
qed

subsection \<open>What a successful construction sets up\<close>

lemma init_fields:
  assumes "init tk a = Inr s"
  shows "classes s = init_classes (arg_classes a)"
    and "n_classes s = length (classes s)"
    and "0 < n_classes s"
    and "mask_colors s =
           (case arg_mask_colors a of
              None \<Rightarrow>
                set_alpha ColFloat (arg_mask_alpha a)
                  (if n_classes s \<le> 10 then take (n_classes s) (TABLEAU_COLORS tk)
                   else take (n_classes s) (XKCD_COLORS tk))
            | Some (d, cs) \<Rightarrow> set_alpha d (arg_mask_alpha a) cs)"
    and "img_shape s = arg_img a"
    and "mask_arr s = (case arg_mask a of None \<Rightarrow> np_full (arg_img a) 0 | Some m \<Rightarrow> m)"
    and "build_overlay (mask_colors s) (mask_arr s) (np_full (arg_img a) transparent)
           (py_range (int (n_classes s) + 1)) = Inr (overlay s)"
    and "pix s = make_pix (arg_img a)"
    and "cur_class_idx s = 1"
    and "\<not> erasing s"
    and "paths_adding s = []"
    and "paths_erasing s = []"
    and "mask_alpha s = arg_mask_alpha a"
  using assms
  by (auto simp: init_def Let_def set_current_class_def
      split: sum.splits if_splits prod.splits option.splits)

lemma wf_np_full: "wf_ndarray (np_full sh v)"
  by (simp add: wf_ndarray_def np_full_def)

lemma init_mask_shape:
  assumes "init tk a = Inr s" and "seed_fits a"
  shows "shape (mask_arr s) = arg_img a"
  using assms(2) init_fields(6) [OF assms(1)]
  by (cases "arg_mask a") (simp_all add: seed_fits_def np_full_def)

lemma init_wf_mask:
  assumes "init tk a = Inr s" and "seed_fits a"
  shows "wf_ndarray (mask_arr s)"
  using assms(2) init_fields(6) [OF assms(1)]
  by (cases "arg_mask a") (simp_all add: seed_fits_def wf_np_full)

lemma init_overlay:
  assumes "init tk a = Inr s" and "seed_fits a"
  shows "shape (overlay s) = arg_img a"
    and "length (data (overlay s)) = length (data (mask_arr s))"
    and "n_classes s \<le> length (mask_colors s)"
    and "\<forall>k<length (data (mask_arr s)). data (overlay s) ! k =
           (if 0 \<le> data (mask_arr s) ! k \<and> data (mask_arr s) ! k \<le> int (n_classes s)
            then overlay_of (mask_colors s) (data (mask_arr s) ! k) else transparent)"
proof -
  let ?ov = "np_full (arg_img a) transparent :: rgba ndarray"
  let ?js = "py_range (int (n_classes s) + 1)"
  have len: "length (data (mask_arr s)) = length (data ?ov)"
    using init_wf_mask [OF assms] init_mask_shape [OF assms(1,2)]
    by (simp add: wf_ndarray_def np_full_def)
  have pos: "\<forall>j\<in>set ?js. 0 \<le> j" by (simp add: set_py_range)
  have shm: "shape (mask_arr s) = shape ?ov"
    using init_mask_shape [OF assms] by (simp add: np_full_def)
  note B = build_overlay_Inr [OF init_fields(7) [OF assms(1)] pos len shm]
  show "shape (overlay s) = arg_img a" using B by (simp add: np_full_def)
  show "length (data (overlay s)) = length (data (mask_arr s))" using B len by simp
  have "int (n_classes s) \<in> set ?js" by (simp add: set_py_range)
  with B show "n_classes s \<le> length (mask_colors s)" by auto
  show "\<forall>k<length (data (mask_arr s)). data (overlay s) ! k =
           (if 0 \<le> data (mask_arr s) ! k \<and> data (mask_arr s) ! k \<le> int (n_classes s)
            then overlay_of (mask_colors s) (data (mask_arr s) ! k) else transparent)"
    using B len by (auto simp: set_py_range np_full_def)
qed

lemma init_state_ok:
  assumes "init tk a = Inr s" and "seed_fits a"
  shows "state_ok s"
proof -
  have "wf_ndarray (overlay s)"
    using init_overlay(1,2) [OF assms] init_wf_mask [OF assms] init_mask_shape [OF assms(1,2)]
    by (simp add: wf_ndarray_def)
  then show ?thesis
    using init_fields [OF assms(1)] init_overlay(1,3) [OF assms] init_wf_mask [OF assms]
      init_mask_shape [OF assms(1,2)]
    by (simp add: state_ok_def Suc_le_eq)
qed

lemma init_in_sync:
  assumes "init tk a = Inr s" and "seed_fits a" and "seed_in_range a (n_classes s)"
  shows "in_sync s"
proof -
  have rng: "list_all (\<lambda>v. 0 \<le> v \<and> v \<le> int (n_classes s)) (data (mask_arr s))"
    using assms(3) init_fields(6) [OF assms(1)]
    by (cases "arg_mask a") (simp_all add: seed_in_range_def np_full_def list_all_iff)
  have "data (overlay s) = map (overlay_of (mask_colors s)) (data (mask_arr s))"
  proof (rule nth_equalityI)
    show "length (data (overlay s)) = length (map (overlay_of (mask_colors s)) (data (mask_arr s)))"
      using init_overlay(2) [OF assms(1,2)] by simp
  next
    fix k assume "k < length (data (overlay s))"
    then have k: "k < length (data (mask_arr s))"
      using init_overlay(2) [OF assms(1,2)] by simp
    then have "0 \<le> data (mask_arr s) ! k \<and> data (mask_arr s) ! k \<le> int (n_classes s)"
      using rng by (simp add: list_all_length)
    with k init_overlay(4) [OF assms(1,2)]
    show "data (overlay s) ! k = map (overlay_of (mask_colors s)) (data (mask_arr s)) ! k"
      by simp
  qed
  then show ?thesis
    using rng init_overlay(1) [OF assms(1,2)] init_mask_shape [OF assms(1,2)]
    by (simp add: in_sync_def)
qed

lemma paint_in_sync:
  assumes "data ov = map (overlay_of cols) (data m)"
  shows "data (paint ov bs (overlay_of cols v)) = map (overlay_of cols) (data (paint m bs v))"
proof -
  have "map2 (\<lambda>b x. if b then overlay_of cols v else x) bs (map (overlay_of cols) xs)
        = map (overlay_of cols) (map2 (\<lambda>b x. if b then v else x) bs xs)" for xs
    by (induction bs xs rule: list_induct2') simp_all
  then show ?thesis using assms by (simp add: paint_def)
qed

lemma paint_in_range:
  assumes "list_all P (data m)" and "P v"
  shows "list_all P (data (paint m bs v))"
proof -
  have "list_all P xs \<Longrightarrow> list_all P (map2 (\<lambda>b x. if b then v else x) bs xs)" for xs
    using assms(2) by (induction bs xs rule: list_induct2') simp_all
  then show ?thesis using assms(1) by (simp add: paint_def)
qed

lemma in_sync_onselect:
  assumes "state_ok s" and "in_sync s"
    and "stores_exactly (dtype (mask_arr s)) (n_classes s)"
  shows "in_sync (state_after (onselect tk s verts))"
proof -
  let ?bs = "map (contains_point tk (Path verts)) (make_pix (img_shape s))"
  have dat: "data (overlay s) = map (overlay_of (mask_colors s)) (data (mask_arr s))"
    and rng: "list_all (\<lambda>v. 0 \<le> v \<and> v \<le> int (n_classes s)) (data (mask_arr s))"
    using assms(2) by (simp_all add: in_sync_def)
  have cur: "0 < cur_class_idx s" "cur_class_idx s \<le> int (n_classes s)"
    using assms(1) by (simp_all add: state_ok_def)
  have sh: "shape (overlay s) = shape (mask_arr s)"
    using assms(2) by (simp add: in_sync_def)
  show ?thesis
  proof (cases "erasing s")
    case True
    then have st: "np_store (dtype (mask_arr s)) (if erasing s then 0 else cur_class_idx s)
        = Inr 0"
      by (simp add: np_store_zero)
    have "transparent = overlay_of (mask_colors s) 0" by (simp add: overlay_of_def)
    then have "data (paint (overlay s) ?bs transparent)
        = map (overlay_of (mask_colors s)) (data (paint (mask_arr s) ?bs 0))"
      using paint_in_sync [OF dat, of ?bs 0] by simp
    moreover have "list_all (\<lambda>v. 0 \<le> v \<and> v \<le> int (n_classes s)) (data (paint (mask_arr s) ?bs 0))"
      by (rule paint_in_range [OF rng]) simp
    ultimately show ?thesis
      using True sh
      by (simp add: onselect_result [OF assms(1) st] Let_def in_sync_def shape_paint)
  next
    case False
    have "np_store (dtype (mask_arr s)) (cur_class_idx s) = Inr (cur_class_idx s)"
      using assms(3) cur by (intro stores_exactlyD) simp_all
    with False
    have st: "np_store (dtype (mask_arr s)) (if erasing s then 0 else cur_class_idx s)
        = Inr (cur_class_idx s)"
      by simp
    have "mask_colors s ! nat (cur_class_idx s - 1) = overlay_of (mask_colors s) (cur_class_idx s)"
      using cur by (simp add: overlay_of_def)
    then have "data (paint (overlay s) ?bs (mask_colors s ! nat (cur_class_idx s - 1)))
        = map (overlay_of (mask_colors s)) (data (paint (mask_arr s) ?bs (cur_class_idx s)))"
      using paint_in_sync [OF dat, of ?bs "cur_class_idx s"] by simp
    moreover have "list_all (\<lambda>v. 0 \<le> v \<and> v \<le> int (n_classes s))
        (data (paint (mask_arr s) ?bs (cur_class_idx s)))"
      by (rule paint_in_range [OF rng]) (use cur in simp)
    ultimately show ?thesis
      using False sh
      by (simp add: onselect_result [OF assms(1) st] Let_def in_sync_def shape_paint)
  qed
qed

lemma in_sync_set_erasing: "in_sync s \<Longrightarrow> in_sync (state_after (set_erasing s v))"
  by (simp add: set_erasing_def in_sync_def)

lemma in_sync_set_current_class: "in_sync s \<Longrightarrow> in_sync (state_after (set_current_class s v))"
  by (simp add: set_current_class_def in_sync_def split: option.splits)

lemma onselect_keeps_dtype:
  assumes "state_ok s"
  shows "dtype (mask_arr (state_after (onselect tk s verts))) = dtype (mask_arr s)"
    and "n_classes (state_after (onselect tk s verts)) = n_classes s"
proof -
  show "dtype (mask_arr (state_after (onselect tk s verts))) = dtype (mask_arr s)"
  proof (cases "np_store (dtype (mask_arr s)) (if erasing s then 0 else cur_class_idx s)")
    case (Inl e)
    show ?thesis by (simp add: onselect_raises [OF assms Inl])
  next
    case (Inr v)
    show ?thesis by (simp add: onselect_result [OF assms Inr] Let_def dtype_paint)
  qed
  show "n_classes (state_after (onselect tk s verts)) = n_classes s"
  proof (cases "np_store (dtype (mask_arr s)) (if erasing s then 0 else cur_class_idx s)")
    case (Inl e)
    show ?thesis by (simp add: onselect_raises [OF assms Inl])
  next
    case (Inr v)
    show ?thesis by (simp add: onselect_result [OF assms Inr] Let_def)
  qed
qed

lemma stores_exactly_step:
  assumes "state_ok s" and "stores_exactly (dtype (mask_arr s)) (n_classes s)"
  shows "stores_exactly (dtype (mask_arr (state_after (step tk s ev))))
           (n_classes (state_after (step tk s ev)))"
proof (cases ev)
  case (Select verts)
  with assms show ?thesis by (simp add: onselect_keeps_dtype)
next
  case (SetCurrentClass v)
  with assms(2) show ?thesis by (simp add: set_current_class_def split: option.splits)
next
  case (SetErasing v)
  with assms(2) show ?thesis by (simp add: set_erasing_def)
qed

lemma in_sync_step:
  "state_ok s \<Longrightarrow> in_sync s \<Longrightarrow> stores_exactly (dtype (mask_arr s)) (n_classes s) \<Longrightarrow>
   in_sync (state_after (step tk s ev))"
  by (cases ev) (simp_all add: in_sync_onselect in_sync_set_current_class in_sync_set_erasing)

lemma in_sync_run:
  "state_ok s \<Longrightarrow> in_sync s \<Longrightarrow> stores_exactly (dtype (mask_arr s)) (n_classes s) \<Longrightarrow>
   in_sync (run tk s evs)"
proof (induction evs arbitrary: s)
  case Nil
  then show ?case by simp
next
  case (Cons ev evs)
  have "in_sync (run tk (state_after (step tk s ev)) evs)"
    using Cons.prems by (intro Cons.IH state_ok_step in_sync_step stores_exactly_step)
  then show ?case by simp
qed

lemma init_returns:
  assumes cols: "arg_mask_colors a = Some (d, cs)"
    and n: "0 < length (init_classes (arg_classes a))"
           "length (init_classes (arg_classes a)) \<le> length cs"
    and m: "(case arg_mask a of None \<Rightarrow> True | Some m \<Rightarrow> shape m = arg_img a)"
    and b: "resolve_button (arg_pan_mousebutton a) = Inr bp"
           "resolve_button (arg_lasso_mousebutton a) = Inr bl"
  shows "\<exists>s. init tk a = Inr s"
proof -
  let ?n = "length (init_classes (arg_classes a))"
  let ?m = "case arg_mask a of None \<Rightarrow> np_full (arg_img a) 0 | Some m' \<Rightarrow> m'"
  let ?cols = "set_alpha d (arg_mask_alpha a) cs"
  have "shape ?m = shape (np_full (arg_img a) transparent :: rgba ndarray)"
    using m by (cases "arg_mask a") (simp_all add: np_full_def)
  moreover have "\<forall>j\<in>set (py_range (int ?n + 1)). 0 \<le> j \<and> j \<le> int (length ?cols)"
    using n by (simp add: set_py_range set_alpha_def)
  ultimately obtain ov where
    "build_overlay ?cols ?m (np_full (arg_img a) transparent) (py_range (int ?n + 1)) = Inr ov"
    using build_overlay_total by blast
  then show ?thesis
    using cols n b by (simp add: init_def Let_def set_current_class_def)
qed

subsection \<open>The concrete object and the cells of a selection\<close>

lemmas init_defs = init_def py_range_def init_classes_def np_full_def set_alpha_def
  alpha_as_def np_eq_def setitem_bool_def axis_accepts_def py_getitem_def transparent_def
  resolve_button_def button_dict_def lower_char_def set_current_class_def make_pix_def
  meshgrid_def

lemmas ex_defs = example_state_def example_toolkit_def box_contains_def left_column_def
  whole_image_def centre_square_def cell_def transparent_def

lemma example_state_init: "init example_toolkit example_args = Inr example_state"
  by (simp add: init_defs example_toolkit_def example_args_def example_state_def
      eval_nat_numeral)

lemma bool_seed_state_init: "init example_toolkit bool_seed_args = Inr bool_seed_state"
  by (simp add: init_defs example_toolkit_def example_args_def example_state_def
      bool_seed_args_def bool_seed_state_def eval_nat_numeral)

lemma bool_seed_state_ok: "state_ok bool_seed_state"
  by (simp add: state_ok_def bool_seed_state_def example_state_def wf_ndarray_def make_pix_def
      meshgrid_def eval_nat_numeral)

lemma example_state_ok: "state_ok example_state"
  by (simp add: state_ok_def example_state_def wf_ndarray_def make_pix_def meshgrid_def
      eval_nat_numeral)

lemma onselect_cell:
  assumes ok: "state_ok s" and r: "r < fst (img_shape s)" and c: "c < snd (img_shape s)"
    and st: "np_store (dtype (mask_arr s)) (if erasing s then 0 else cur_class_idx s) = Inr v"
    and s': "onselect tk s verts = Inr s'"
  shows "cell (mask_arr s') r c =
           (if contains_point tk (Path verts) (c, r) then v else cell (mask_arr s) r c)"
    and "cell (overlay s') r c =
           (if contains_point tk (Path verts) (c, r)
            then (if erasing s then transparent else mask_colors s ! nat (cur_class_idx s - 1))
            else cell (overlay s) r c)"
proof -
  let ?bs = "map (contains_point tk (Path verts)) (make_pix (img_shape s))"
  have sh: "shape (mask_arr s) = img_shape s" "shape (overlay s) = img_shape s"
    and wf: "wf_ndarray (mask_arr s)" "wf_ndarray (overlay s)"
    using ok by (simp_all add: state_ok_def)
  have len: "length ?bs = length (data (mask_arr s))" "length ?bs = length (data (overlay s))"
    using sh wf by (simp_all add: wf_ndarray_def length_make_pix)
  have k: "r * snd (img_shape s) + c < fst (img_shape s) * snd (img_shape s)"
    using r c by (rule cell_index_less)
  then have b: "?bs ! (r * snd (img_shape s) + c) = contains_point tk (Path verts) (c, r)"
    using r c by (simp add: length_make_pix nth_make_pix)
  have m: "cell (paint (mask_arr s) ?bs w) r c
      = (if contains_point tk (Path verts) (c, r) then w else cell (mask_arr s) r c)" for w
    using cell_paint [OF wf(1) len(1), of r c w] r c sh b by simp
  have o: "cell (paint (overlay s) ?bs w) r c
      = (if contains_point tk (Path verts) (c, r) then w else cell (overlay s) r c)" for w
    using cell_paint [OF wf(2) len(2), of r c w] r c sh b by simp
  have eq: "s' = state_after (onselect tk s verts)" using s' by simp
  show "cell (mask_arr s') r c =
           (if contains_point tk (Path verts) (c, r) then v else cell (mask_arr s) r c)"
    unfolding eq by (simp add: onselect_result [OF ok st] Let_def m)
  show "cell (overlay s') r c =
           (if contains_point tk (Path verts) (c, r)
            then (if erasing s then transparent else mask_colors s ! nat (cur_class_idx s - 1))
            else cell (overlay s) r c)"
    unfolding eq by (simp add: onselect_result [OF ok st] Let_def o)
qed

lemma onselect_returns:
  "state_ok s \<Longrightarrow>
   np_store (dtype (mask_arr s)) (if erasing s then 0 else cur_class_idx s) = Inr v \<Longrightarrow>
   \<exists>s'. onselect tk s verts = Inr s'"
  by (simp add: onselect_result)

lemma onselect_frame:
  assumes "state_ok s" and "onselect tk s verts = Inr s'"
    and "np_store (dtype (mask_arr s)) (if erasing s then 0 else cur_class_idx s) = Inr v"
  shows "erasing s' = erasing s" and "cur_class_idx s' = cur_class_idx s"
    and "mask_colors s' = mask_colors s" and "img_shape s' = img_shape s"
    and "n_classes s' = n_classes s" and "classes s' = classes s"
    and "dtype (mask_arr s') = dtype (mask_arr s)"
    and "paths_adding s' = (if erasing s then paths_adding s else paths_adding s @ [Path verts])"
    and "paths_erasing s' = (if erasing s then paths_erasing s @ [Path verts] else paths_erasing s)"
  using assms(2)
  by (simp_all add: onselect_result [OF assms(1,3)] Let_def split: if_splits)
    (auto simp: dtype_paint)

subsection \<open>Further facts about the calls\<close>

lemma set_erasing_bool: "set_erasing s (PBool b) = Inr (s\<lparr>erasing := b\<rparr>)"
  by (simp add: set_erasing_def)

lemma state_ok_erasing_update: "state_ok (s\<lparr>erasing := b\<rparr>) = state_ok s"
  by (simp add: state_ok_def)

lemma state_ok_onselect_Inr:
  "state_ok s \<Longrightarrow> onselect tk s verts = Inr s' \<Longrightarrow> state_ok s'"
  using state_ok_onselect [of s tk verts] by simp

lemma set_current_class_int:
  "0 < i \<Longrightarrow> i \<le> int (n_classes s) \<Longrightarrow>
   set_current_class s (PInt i) = Inr (s\<lparr>cur_class_idx := i\<rparr>)"
  by (simp add: set_current_class_def)

lemma state_ok_cur_update:
  "state_ok s \<Longrightarrow> 0 < i \<Longrightarrow> i \<le> int (n_classes s) \<Longrightarrow> state_ok (s\<lparr>cur_class_idx := i\<rparr>)"
  by (simp add: state_ok_def)

lemma div_mod_cell:
  assumes "k < h * w"
  shows "k div w < h" and "k mod w < w" and "k div w * w + k mod w = (k::nat)"
proof -
  have w: "0 < w" using assms by (cases w) simp_all
  show "k div w < h" using assms w by (simp add: less_mult_imp_div_less)
  show "k mod w < w" using w by simp
  show "k div w * w + k mod w = k" by simp
qed

lemma paint_nothing:
  assumes "wf_ndarray a" and "length bs = length (data a)"
    and "\<forall>k<length (data a). \<not> bs ! k"
  shows "paint a bs v = a"
proof -
  have "map2 (\<lambda>b x. if b then v else x) bs (data a) = data a"
    using assms(2,3) by (intro nth_equalityI) simp_all
  then show ?thesis by (simp add: paint_def)
qed

lemma get_current_class_in_range:
  "n_classes s = length (classes s) \<Longrightarrow> 0 < cur_class_idx s \<Longrightarrow>
   cur_class_idx s \<le> int (n_classes s) \<Longrightarrow>
   get_current_class s = Inr (classes s ! nat (cur_class_idx s - 1))"
  by (simp add: get_current_class_def py_getitem_nat)

lemma onselect_keeps_registry:
  "classes (state_after (onselect tk s verts)) = classes s"
  "n_classes (state_after (onselect tk s verts)) = n_classes s"
  "cur_class_idx (state_after (onselect tk s verts)) = cur_class_idx s"
  by (simp_all add: onselect_def Let_def split: sum.splits)

lemma index_ok_step: "index_ok s cls \<Longrightarrow> index_ok (state_after (step tk s ev)) cls"
proof (cases ev)
  case (Select verts)
  assume "index_ok s cls"
  with Select show ?thesis by (simp add: index_ok_def onselect_keeps_registry)
next
  case (SetCurrentClass v)
  assume ok: "index_ok s cls"
  show ?thesis
  proof (cases "list_index (classes s) v")
    case None
    with ok SetCurrentClass show ?thesis by (simp add: index_ok_def set_current_class_def)
  next
    case (Some j)
    then have "j < length (classes s)" by (simp add: list_index_less)
    with ok Some SetCurrentClass show ?thesis
      by (simp add: index_ok_def set_current_class_def)
  qed
next
  case (SetErasing v)
  assume "index_ok s cls"
  with SetErasing show ?thesis by (simp add: index_ok_def set_erasing_def)
qed

lemma index_ok_run: "index_ok s cls \<Longrightarrow> index_ok (run tk s evs) cls"
  by (induction evs arbitrary: s) (simp_all add: index_ok_step)

lemma reachable_state_ok:
  "init tk a = Inr s0 \<Longrightarrow> seed_fits a \<Longrightarrow> state_ok (run tk s0 evs)"
  by (intro state_ok_run init_state_ok)

lemma build_overlay_zeros:
  assumes "shape m = shape ov" and "length (data m) = length (data ov)"
    and "list_all (\<lambda>x. x = 0) (data m)" and "list_all (\<lambda>x. x = transparent) (data ov)"
    and "\<forall>j\<in>set js. 0 \<le> j \<and> j \<le> int (length cols)"
  shows "build_overlay cols m ov js = Inr ov"
  using assms(5)
proof (induction js)
  case Nil
  show ?case by simp
next
  case (Cons i rest)
  have same: "map2 (\<lambda>b x. if b then w else x) (map (\<lambda>x. x = j) xs) ys = ys"
    if "length xs = length ys" "list_all (\<lambda>x. x = 0) xs" "list_all (\<lambda>x. x = transparent) ys"
      "j = 0 \<longrightarrow> w = transparent"
    for xs :: "int list" and ys j w
    using that by (induction xs ys rule: list_induct2) auto
  have step: "setitem_bool ov (np_eq m j) w = Inr ov" if "j = 0 \<longrightarrow> w = transparent" for j w
  proof -
    have "shape (np_eq m j) = shape ov" using assms(1) by (simp add: np_eq_def)
    then have "setitem_bool ov (np_eq m j) w = Inr (paint ov (data (np_eq m j)) w)"
      by (rule setitem_bool_paint)
    moreover have "paint ov (data (np_eq m j)) w = ov"
      using same [OF assms(2,3,4) that] by (simp add: paint_def np_eq_def)
    ultimately show ?thesis by simp
  qed
  have rest: "build_overlay cols m ov rest = Inr ov" using Cons by simp
  show ?case
  proof (cases "i = 0")
    case True
    then show ?thesis
      using rest step [of 0 transparent] by (simp add: Let_def)
  next
    case False
    with Cons.prems have "0 \<le> i - 1" "i - 1 < int (length cols)" by simp_all
    then have "py_getitem cols (i - 1) = Inr (cols ! nat (i - 1))" by (rule py_getitem_nat)
    with False show ?thesis
      using rest step [of i "cols ! nat (i - 1)"] by (simp add: Let_def)
  qed
qed

lemma make_pix_2_2: "make_pix (2, 2) = [(0, 0), (1, 0), (0, 1), (1, 1)]"
  by (simp add: make_pix_def meshgrid_def eval_nat_numeral)

lemma np_full_2_2:
  "np_full (2, 2) v = \<lparr>shape = (2, 2), dtype = NpFloat64, data = [v, v, v, v]\<rparr>"
  by (simp add: np_full_def eval_nat_numeral)

lemma uint8_state_init: "init example_toolkit uint8_args = Inr uint8_state"
proof -
  let ?m = "\<lparr>shape = (2, 2), dtype = NpUInt W8, data = [0, 0, 0, 0 :: int]\<rparr>"
  let ?cols = "replicate 256 (1, 0, 0, 3 / 4) :: rgba list"
  have cols: "set_alpha ColFloat (3 / 4) (replicate 256 (1, 0, 0, 1)) = ?cols"
    by (simp add: set_alpha_def alpha_as_def)
  have ov: "build_overlay ?cols ?m (np_full (2, 2) transparent) (py_range (int 256 + 1))
      = Inr (np_full (2, 2) transparent)"
    by (rule build_overlay_zeros) (simp_all add: np_full_2_2 set_py_range)
  have b: "resolve_button (BName ''middle'') = Inr 2" "resolve_button (BName ''left'') = Inr 1"
    by (simp_all add: resolve_button_def button_dict_def lower_char_def)
  show ?thesis
    using ov
    by (simp add: init_def uint8_args_def uint8_state_def example_args_def
        example_state_def length_py_range cols b set_current_class_def make_pix_2_2
        np_full_2_2 transparent_def init_classes_def)
qed

lemma uint8_state_ok: "state_ok uint8_state"
  by (simp add: state_ok_def uint8_state_def example_state_def wf_ndarray_def make_pix_2_2
      py_range_def)

subsection \<open>Element types at concrete values, and the concrete objects with a seed\<close>

lemma np_store_one: "np_store d 1 = Inr 1"
proof (cases d)
  case NpBool
  then show ?thesis by (simp add: np_store_def)
next
  case (NpUInt w)
  then show ?thesis by (cases w) (simp_all add: np_store_def)
next
  case (NpInt w)
  then show ?thesis by (cases w) (simp_all add: np_store_def)
next
  case NpFloat64
  then show ?thesis using float64_exact [of 1] by simp
qed

lemma np_store_float64_two: "np_store NpFloat64 2 = Inr 2"
  using float64_exact [of 2] by simp

lemma written_exact:
  "erasing s \<or> np_store (dtype (mask_arr s)) (cur_class_idx s) = Inr (cur_class_idx s) \<Longrightarrow>
   np_store (dtype (mask_arr s)) (if erasing s then 0 else cur_class_idx s)
     = Inr (if erasing s then 0 else cur_class_idx s)"
  by (auto simp: np_store_zero)

lemma bool_seed_class2_ok: "state_ok bool_seed_class2"
  using bool_seed_state_ok by (simp add: bool_seed_class2_def state_ok_def bool_seed_state_def
      example_state_def)

lemma bool_seed_set_class2:
  "set_current_class bool_seed_state (PInt 2) = Inr bool_seed_class2"
  by (simp add: set_current_class_def bool_seed_class2_def bool_seed_state_def example_state_def)

lemma bool_seed_stores_two:
  "np_store (dtype (mask_arr bool_seed_class2))
     (if erasing bool_seed_class2 then 0 else cur_class_idx bool_seed_class2) = Inr 1"
  by (simp add: bool_seed_class2_def bool_seed_state_def example_state_def np_store_def)

lemma bool_seed_select_left:
  "onselect example_toolkit bool_seed_class2 left_column = Inr bool_seed_painted"
  by (subst onselect_result [OF bool_seed_class2_ok bool_seed_stores_two])
    (simp add: Let_def bool_seed_painted_def bool_seed_class2_def bool_seed_state_def
      example_state_def example_toolkit_def box_contains_def left_column_def make_pix_2_2
      paint_def)

lemma alpha_as_int: "alpha_as ColInt (3 / 4) = 0"
  by (simp add: alpha_as_def)

lemmas run_defs = onselect_def contains_points_def reshape_def setitem_bool_int_def
  np_store_def setitem_bool_def axis_accepts_def py_getitem_def set_current_class_def
  set_erasing_def example_toolkit_def box_contains_def

lemma uint8_class256_ok: "state_ok uint8_class256"
  by (simp add: uint8_class256_def state_ok_def uint8_state_def example_state_def wf_ndarray_def
      make_pix_2_2 py_range_def)

lemma uint8_set_class256: "set_current_class uint8_state (PInt 256) = Inr uint8_class256"
  by (simp add: set_current_class_def uint8_class256_def uint8_state_def example_state_def)

lemma uint8_overflow:
  "np_store (dtype (mask_arr uint8_class256))
     (if erasing uint8_class256 then 0 else cur_class_idx uint8_class256) = Inl OverflowError"
  by (simp add: uint8_class256_def uint8_state_def example_state_def np_store_def)

section \<open>The lasso selection\<close>

text \<open>
  Claim C1, amended. On an object as construction and the calls leave it, in erasing
  mode, or in adding mode when the element type of the label mask holds the current
  class index as it is (as the default mask does), the selection handler returns, and
  for every cell \<open>(r, c)\<close> of the grid: if the pixel \<open>(x, y) = (c, r)\<close> is contained in
  the polygon of the vertex list, then in erasing mode the mask cell becomes \<open>0\<close> and
  the overlay cell fully transparent, and in adding mode the mask cell becomes the
  current 1-based class index and the overlay cell the colour-table entry of the
  current class; a cell that is not contained keeps its mask and overlay values.
\<close>

theorem onselect_writes_contained_cells:
  assumes "state_ok s"
    and "erasing s \<or>
         np_store (dtype (mask_arr s)) (cur_class_idx s) = Inr (cur_class_idx s)"
  shows "\<exists>s'. onselect tk s verts = Inr s' \<and>
     (\<forall>r c. r < fst (img_shape s) \<and> c < snd (img_shape s) \<longrightarrow>
        (if contains_point tk (Path verts) (c, r)
         then (if erasing s
               then cell (mask_arr s') r c = 0 \<and> cell (overlay s') r c = transparent
               else cell (mask_arr s') r c = cur_class_idx s \<and>
                    cell (overlay s') r c = mask_colors s ! nat (cur_class_idx s - 1))
         else cell (mask_arr s') r c = cell (mask_arr s) r c \<and>
              cell (overlay s') r c = cell (overlay s) r c))"
proof -
  note st = written_exact [OF assms(2)]
  obtain s' where s': "onselect tk s verts = Inr s'"
    using onselect_returns [OF assms(1) st] by blast
  have "(if contains_point tk (Path verts) (c, r)
         then (if erasing s
               then cell (mask_arr s') r c = 0 \<and> cell (overlay s') r c = transparent
               else cell (mask_arr s') r c = cur_class_idx s \<and>
                    cell (overlay s') r c = mask_colors s ! nat (cur_class_idx s - 1))
         else cell (mask_arr s') r c = cell (mask_arr s) r c \<and>
              cell (overlay s') r c = cell (overlay s) r c)"
    if "r < fst (img_shape s)" "c < snd (img_shape s)" for r c
    using onselect_cell [OF assms(1) that st s'] by simp
  with s' show ?thesis by blast
qed

theorem onselect_writes_contained_cells_witness:
  "state_ok example_state \<and>
   (erasing example_state \<or>
    np_store (dtype (mask_arr example_state)) (cur_class_idx example_state)
      = Inr (cur_class_idx example_state)) \<and>
   cell (mask_arr (state_after (onselect example_toolkit example_state left_column))) 1 0 = 1 \<and>
   cell (overlay (state_after (onselect example_toolkit example_state left_column))) 1 0
     = (31 / 255, 119 / 255, 180 / 255, 3 / 4) \<and>
   cell (mask_arr (state_after (onselect example_toolkit example_state left_column))) 1 1 = 0 \<and>
   cell (overlay (state_after (onselect example_toolkit example_state left_column))) 1 1
     = transparent"
proof -
  have ex: "erasing example_state \<or>
      np_store (dtype (mask_arr example_state)) (cur_class_idx example_state)
        = Inr (cur_class_idx example_state)"
    by (simp add: example_state_def np_store_one)
  obtain s' where s': "onselect example_toolkit example_state left_column = Inr s'"
    and cells: "\<forall>r c. r < fst (img_shape example_state) \<and> c < snd (img_shape example_state) \<longrightarrow>
        (if contains_point example_toolkit (Path left_column) (c, r)
         then (if erasing example_state
               then cell (mask_arr s') r c = 0 \<and> cell (overlay s') r c = transparent
               else cell (mask_arr s') r c = cur_class_idx example_state \<and>
                    cell (overlay s') r c
                      = mask_colors example_state ! nat (cur_class_idx example_state - 1))
         else cell (mask_arr s') r c = cell (mask_arr example_state) r c \<and>
              cell (overlay s') r c = cell (overlay example_state) r c)"
    using onselect_writes_contained_cells [OF example_state_ok ex, of example_toolkit left_column]
    by blast
  from cells [rule_format, of 1 0] cells [rule_format, of 1 1] s' example_state_ok ex
  show ?thesis
    by (simp add: ex_defs)
qed

text \<open>
  The claim as first stated fails for a seed mask of element type \<^verbatim>\<open>bool\<close>, which the
  constructor keeps as it is: with two classes and the second one current, a contained
  cell of the mask holds \<open>True\<close>, which reads as \<open>1\<close> and not as the class index \<open>2\<close>.
\<close>

theorem onselect_writes_contained_cells_counterexample:
  "init example_toolkit bool_seed_args = Inr bool_seed_state \<and>
   set_current_class bool_seed_state (PInt 2) = Inr bool_seed_class2 \<and>
   cur_class_idx bool_seed_class2 = 2 \<and>
   \<not> erasing bool_seed_class2 \<and>
   contains_point example_toolkit (Path left_column) (0, 0) \<and>
   onselect example_toolkit bool_seed_class2 left_column = Inr bool_seed_painted \<and>
   cell (mask_arr bool_seed_painted) 0 0 = 1"
  using bool_seed_state_init bool_seed_set_class2 bool_seed_select_left
  by (simp add: bool_seed_painted_def bool_seed_class2_def bool_seed_state_def example_state_def
      example_toolkit_def box_contains_def left_column_def cell_def)

text \<open>
  Claim C3, amended. When the element type of the label mask holds the current class
  index \<open>c\<close> as it is, a polygon that contains every pixel of the grid, applied in
  adding mode, turns every mask cell into \<open>c\<close> and every overlay cell into the
  colour-table entry of \<open>c\<close>; switching to erasing mode and applying the same polygon
  again turns every mask cell into \<open>0\<close> and every overlay cell fully transparent.
\<close>

theorem full_polygon_add_then_erase:
  assumes ok: "state_ok s" and adding: "\<not> erasing s"
    and exact: "np_store (dtype (mask_arr s)) (cur_class_idx s) = Inr (cur_class_idx s)"
    and full: "\<forall>r c. r < fst (img_shape s) \<and> c < snd (img_shape s) \<longrightarrow>
                 contains_point tk (Path verts) (c, r)"
  shows "\<exists>s1 s2 s3.
     onselect tk s verts = Inr s1 \<and>
     (\<forall>r c. r < fst (img_shape s) \<and> c < snd (img_shape s) \<longrightarrow>
        cell (mask_arr s1) r c = cur_class_idx s \<and>
        cell (overlay s1) r c = mask_colors s ! nat (cur_class_idx s - 1)) \<and>
     set_erasing s1 (PBool True) = Inr s2 \<and>
     onselect tk s2 verts = Inr s3 \<and>
     (\<forall>r c. r < fst (img_shape s) \<and> c < snd (img_shape s) \<longrightarrow>
        cell (mask_arr s3) r c = 0 \<and> cell (overlay s3) r c = transparent)"
proof -
  have st: "np_store (dtype (mask_arr s)) (if erasing s then 0 else cur_class_idx s)
      = Inr (cur_class_idx s)"
    using adding exact by simp
  obtain s1 where s1: "onselect tk s verts = Inr s1"
    using onselect_returns [OF ok st] by blast
  have ok1: "state_ok s1" using ok s1 by (rule state_ok_onselect_Inr)
  have img1: "img_shape s1 = img_shape s" using onselect_frame(4) [OF ok s1 st] .
  define s2 where "s2 = s1\<lparr>erasing := True\<rparr>"
  have s2: "set_erasing s1 (PBool True) = Inr s2" by (simp add: s2_def set_erasing_bool)
  have ok2: "state_ok s2" using ok1 by (simp add: s2_def state_ok_erasing_update)
  have img2: "img_shape s2 = img_shape s" "erasing s2" using img1 by (simp_all add: s2_def)
  have st2: "np_store (dtype (mask_arr s2)) (if erasing s2 then 0 else cur_class_idx s2) = Inr 0"
    using img2(2) by (simp add: np_store_zero)
  obtain s3 where s3: "onselect tk s2 verts = Inr s3"
    using onselect_returns [OF ok2 st2] by blast
  have a: "cell (mask_arr s1) r c = cur_class_idx s \<and>
           cell (overlay s1) r c = mask_colors s ! nat (cur_class_idx s - 1)"
    if "r < fst (img_shape s)" "c < snd (img_shape s)" for r c
    using onselect_cell [OF ok that st s1] full that adding by simp
  have b: "cell (mask_arr s3) r c = 0 \<and> cell (overlay s3) r c = transparent"
    if "r < fst (img_shape s)" "c < snd (img_shape s)" for r c
    using onselect_cell [OF ok2 _ _ st2 s3, of r c] full that img2 by simp
  from s1 s2 s3 a b show ?thesis by blast
qed

theorem full_polygon_add_then_erase_witness:
  "state_ok example_state \<and> \<not> erasing example_state \<and>
   np_store (dtype (mask_arr example_state)) (cur_class_idx example_state)
     = Inr (cur_class_idx example_state) \<and>
   contains_point example_toolkit (Path whole_image) (0, 0) \<and>
   contains_point example_toolkit (Path whole_image) (1, 0) \<and>
   contains_point example_toolkit (Path whole_image) (0, 1) \<and>
   contains_point example_toolkit (Path whole_image) (1, 1) \<and>
   cell (mask_arr (state_after (onselect example_toolkit example_state whole_image))) 0 1 = 1 \<and>
   cell (mask_arr (state_after (onselect example_toolkit
      (state_after (set_erasing (state_after (onselect example_toolkit example_state whole_image))
         (PBool True))) whole_image))) 0 1 = 0 \<and>
   cell (overlay (state_after (onselect example_toolkit
      (state_after (set_erasing (state_after (onselect example_toolkit example_state whole_image))
         (PBool True))) whole_image))) 0 1 = transparent"
proof -
  have adding: "\<not> erasing example_state" by (simp add: example_state_def)
  have exact: "np_store (dtype (mask_arr example_state)) (cur_class_idx example_state)
      = Inr (cur_class_idx example_state)"
    by (simp add: example_state_def np_store_one)
  have inside: "contains_point example_toolkit (Path whole_image) (0, 0)"
    "contains_point example_toolkit (Path whole_image) (1, 0)"
    "contains_point example_toolkit (Path whole_image) (0, 1)"
    "contains_point example_toolkit (Path whole_image) (1, 1)"
    by (simp_all add: example_toolkit_def box_contains_def whole_image_def)
  have full: "\<forall>r c. r < fst (img_shape example_state) \<and> c < snd (img_shape example_state) \<longrightarrow>
                 contains_point example_toolkit (Path whole_image) (c, r)"
    using inside by (auto simp: example_state_def less_Suc_eq eval_nat_numeral)
  from full_polygon_add_then_erase [OF example_state_ok adding exact full]
  obtain s1 s2 s3 where
    "onselect example_toolkit example_state whole_image = Inr s1"
    "set_erasing s1 (PBool True) = Inr s2"
    "onselect example_toolkit s2 whole_image = Inr s3"
    "cell (mask_arr s1) 0 1 = cur_class_idx example_state"
    "cell (mask_arr s3) 0 1 = 0" "cell (overlay s3) 0 1 = transparent"
    by (fastforce simp: example_state_def)
  then show ?thesis
    using example_state_ok adding exact inside by (simp add: example_state_def)
qed

text \<open>
  The claim as first stated fails for a seed mask of element type \<^verbatim>\<open>bool\<close>: with the
  second class current, the polygon that contains every pixel leaves \<open>1\<close>, not \<open>2\<close>, in
  every cell of the mask.
\<close>

theorem full_polygon_add_then_erase_counterexample:
  "init example_toolkit bool_seed_args = Inr bool_seed_state \<and>
   set_current_class bool_seed_state (PInt 2) = Inr bool_seed_class2 \<and>
   cur_class_idx bool_seed_class2 = 2 \<and>
   \<not> erasing bool_seed_class2 \<and>
   contains_point example_toolkit (Path whole_image) (0, 0) \<and>
   contains_point example_toolkit (Path whole_image) (1, 0) \<and>
   contains_point example_toolkit (Path whole_image) (0, 1) \<and>
   contains_point example_toolkit (Path whole_image) (1, 1) \<and>
   \<not> isl (onselect example_toolkit bool_seed_class2 whole_image) \<and>
   data (mask_arr (state_after (onselect example_toolkit bool_seed_class2 whole_image)))
     = [1, 1, 1, 1]"
  using bool_seed_state_init bool_seed_set_class2
  by (simp add: run_defs whole_image_def bool_seed_class2_def bool_seed_state_def
      example_state_def)

text \<open>
  Claim C4, amended. With at least two classes, in adding mode, and when the element
  type of the label mask holds the class index \<open>2\<close> as it is: after polygon \<open>A\<close> is
  selected with current class \<open>1\<close> and then polygon \<open>B\<close> with current class \<open>2\<close>, a cell
  that lies in both polygons holds the mask value \<open>2\<close> and exactly the colour of class
  \<open>2\<close>, although it held \<open>1\<close> in between.
\<close>

theorem later_gesture_overwrites:
  assumes ok: "state_ok s" and adding: "\<not> erasing s" and two: "2 \<le> n_classes s"
    and exact: "np_store (dtype (mask_arr s)) 2 = Inr 2"
    and r: "r < fst (img_shape s)" and c: "c < snd (img_shape s)"
    and inA: "contains_point tk (Path A) (c, r)"
    and inB: "contains_point tk (Path B) (c, r)"
  shows "\<exists>s1 s2 s3 s4.
     set_current_class s (PInt 1) = Inr s1 \<and>
     onselect tk s1 A = Inr s2 \<and>
     cell (mask_arr s2) r c = 1 \<and>
     set_current_class s2 (PInt 2) = Inr s3 \<and>
     onselect tk s3 B = Inr s4 \<and>
     cell (mask_arr s4) r c = 2 \<and>
     cell (overlay s4) r c = mask_colors s ! 1"
proof -
  define s1 where "s1 = s\<lparr>cur_class_idx := 1\<rparr>"
  have s1: "set_current_class s (PInt 1) = Inr s1"
    using two by (simp add: s1_def set_current_class_int)
  have ok1: "state_ok s1"
    using ok two by (simp add: s1_def state_ok_cur_update)
  have f1: "img_shape s1 = img_shape s" "\<not> erasing s1" "cur_class_idx s1 = 1"
    "dtype (mask_arr s1) = dtype (mask_arr s)"
    using adding by (simp_all add: s1_def)
  have st1: "np_store (dtype (mask_arr s1)) (if erasing s1 then 0 else cur_class_idx s1) = Inr 1"
    using f1 by (simp add: np_store_one)
  obtain s2 where s2: "onselect tk s1 A = Inr s2"
    using onselect_returns [OF ok1 st1] by blast
  have ok2: "state_ok s2" using ok1 s2 by (rule state_ok_onselect_Inr)
  have f2: "img_shape s2 = img_shape s" "\<not> erasing s2" "n_classes s2 = n_classes s"
    "mask_colors s2 = mask_colors s" "dtype (mask_arr s2) = dtype (mask_arr s)"
    using onselect_frame [OF ok1 s2 st1] f1 by (simp_all add: s1_def)
  have m2: "cell (mask_arr s2) r c = 1"
    using onselect_cell(1) [OF ok1 _ _ st1 s2, of r c] r c inA f1 by simp
  define s3 where "s3 = s2\<lparr>cur_class_idx := 2\<rparr>"
  have s3: "set_current_class s2 (PInt 2) = Inr s3"
    using two f2 by (simp add: s3_def set_current_class_int)
  have ok3: "state_ok s3"
    using ok2 two f2 by (simp add: s3_def state_ok_cur_update)
  have f3: "img_shape s3 = img_shape s" "\<not> erasing s3" "cur_class_idx s3 = 2"
    "mask_colors s3 = mask_colors s" "dtype (mask_arr s3) = dtype (mask_arr s)"
    using f2 by (simp_all add: s3_def)
  have st3: "np_store (dtype (mask_arr s3)) (if erasing s3 then 0 else cur_class_idx s3) = Inr 2"
    using f3 exact by simp
  obtain s4 where s4: "onselect tk s3 B = Inr s4"
    using onselect_returns [OF ok3 st3] by blast
  have m4: "cell (mask_arr s4) r c = 2" "cell (overlay s4) r c = mask_colors s ! 1"
    using onselect_cell [OF ok3 _ _ st3 s4, of r c] r c inB f3 by simp_all
  from s1 s2 m2 s3 s4 m4 show ?thesis by blast
qed

theorem later_gesture_overwrites_witness:
  "state_ok example_state \<and> \<not> erasing example_state \<and> 2 \<le> n_classes example_state \<and>
   np_store (dtype (mask_arr example_state)) 2 = Inr 2 \<and>
   0 < fst (img_shape example_state) \<and> 0 < snd (img_shape example_state) \<and>
   contains_point example_toolkit (Path left_column) (0, 0) \<and>
   contains_point example_toolkit (Path top_row) (0, 0) \<and>
   cell (mask_arr (state_after (onselect example_toolkit
           (state_after (set_current_class example_state (PInt 1))) left_column))) 0 0 = 1 \<and>
   cell (mask_arr (state_after (onselect example_toolkit
           (state_after (set_current_class
              (state_after (onselect example_toolkit
                 (state_after (set_current_class example_state (PInt 1))) left_column))
              (PInt 2))) top_row))) 0 0 = 2"
proof -
  have h: "\<not> erasing example_state" "2 \<le> n_classes example_state"
    "np_store (dtype (mask_arr example_state)) 2 = Inr 2"
    "0 < fst (img_shape example_state)" "0 < snd (img_shape example_state)"
    by (simp_all add: example_state_def np_store_float64_two)
  have inside: "contains_point example_toolkit (Path left_column) (0, 0)"
    "contains_point example_toolkit (Path top_row) (0, 0)"
    by (simp_all add: example_toolkit_def box_contains_def left_column_def top_row_def)
  from later_gesture_overwrites [OF example_state_ok h inside]
  obtain s1 s2 s3 s4 where
    "set_current_class example_state (PInt 1) = Inr s1"
    "onselect example_toolkit s1 left_column = Inr s2"
    "cell (mask_arr s2) 0 0 = 1"
    "set_current_class s2 (PInt 2) = Inr s3"
    "onselect example_toolkit s3 top_row = Inr s4"
    "cell (mask_arr s4) 0 0 = 2"
    by blast
  then show ?thesis
    using example_state_ok h inside by simp
qed

text \<open>
  The claim as first stated fails for a seed mask of element type \<^verbatim>\<open>bool\<close>: both
  selections return, and the cell in both polygons holds \<open>1\<close> after the second.
\<close>

theorem later_gesture_overwrites_counterexample:
  "init example_toolkit bool_seed_args = Inr bool_seed_state \<and>
   \<not> erasing bool_seed_state \<and> 2 \<le> n_classes bool_seed_state \<and>
   contains_point example_toolkit (Path left_column) (0, 0) \<and>
   contains_point example_toolkit (Path top_row) (0, 0) \<and>
   paths_adding (run example_toolkit bool_seed_state
      [SetCurrentClass (PInt 1), Select left_column, SetCurrentClass (PInt 2), Select top_row])
     = [Path left_column, Path top_row] \<and>
   cur_class_idx (run example_toolkit bool_seed_state
      [SetCurrentClass (PInt 1), Select left_column, SetCurrentClass (PInt 2), Select top_row])
     = 2 \<and>
   cell (mask_arr (run example_toolkit bool_seed_state
      [SetCurrentClass (PInt 1), Select left_column, SetCurrentClass (PInt 2), Select top_row]))
      0 0 = 1"
  using bool_seed_state_init
  by (simp add: run_defs left_column_def top_row_def bool_seed_state_def example_state_def
      cell_def)

text \<open>
  Claim C7, amended. In erasing mode, or in adding mode when the conversion of the
  current class index to the element type of the label mask does not raise: for a
  polygon that contains no pixel of the grid the selection handler returns with the
  label mask and the overlay unchanged and the history of the other mode unchanged,
  while the history of the current mode grows by exactly one entry, the polygon.
\<close>

theorem empty_selection_only_records_path:
  assumes ok: "state_ok s"
    and cast: "erasing s \<or> \<not> isl (np_store (dtype (mask_arr s)) (cur_class_idx s))"
    and none: "\<forall>r c. r < fst (img_shape s) \<and> c < snd (img_shape s) \<longrightarrow>
                 \<not> contains_point tk (Path verts) (c, r)"
  shows "\<exists>s'. onselect tk s verts = Inr s' \<and>
     mask_arr s' = mask_arr s \<and> overlay s' = overlay s \<and>
     (if erasing s
      then paths_adding s' = paths_adding s \<and>
           paths_erasing s' = paths_erasing s @ [Path verts] \<and>
           length (paths_erasing s') = length (paths_erasing s) + 1
      else paths_erasing s' = paths_erasing s \<and>
           paths_adding s' = paths_adding s @ [Path verts] \<and>
           length (paths_adding s') = length (paths_adding s) + 1)"
proof -
  let ?sh = "img_shape s"
  let ?bs = "map (contains_point tk (Path verts)) (make_pix ?sh)"
  obtain v where st:
    "np_store (dtype (mask_arr s)) (if erasing s then 0 else cur_class_idx s) = Inr v"
  proof (cases "erasing s")
    case True
    then show ?thesis using that [of 0] by (simp add: np_store_zero)
  next
    case False
    with cast obtain w where "np_store (dtype (mask_arr s)) (cur_class_idx s) = Inr w"
      by (cases "np_store (dtype (mask_arr s)) (cur_class_idx s)") simp_all
    with False show ?thesis using that [of w] by simp
  qed
  have sh: "shape (mask_arr s) = ?sh" "shape (overlay s) = ?sh"
    and wf: "wf_ndarray (mask_arr s)" "wf_ndarray (overlay s)"
    using ok by (simp_all add: state_ok_def)
  have len: "length ?bs = length (data (mask_arr s))" "length ?bs = length (data (overlay s))"
    using sh wf by (simp_all add: wf_ndarray_def length_make_pix)
  have no: "\<not> ?bs ! k" if "k < fst ?sh * snd ?sh" for k
  proof -
    note d = div_mod_cell [OF that]
    have "make_pix ?sh ! k = (k mod snd ?sh, k div snd ?sh)"
      using nth_make_pix [OF d(1,2)] d(3) by simp
    with none d(1,2) that show ?thesis by (simp add: length_make_pix)
  qed
  have m: "paint (mask_arr s) ?bs w = mask_arr s" for w
    using no wf(1) sh(1) by (intro paint_nothing [OF wf(1) len(1)]) (simp add: wf_ndarray_def)
  have o: "paint (overlay s) ?bs w = overlay s" for w
    using no wf(2) sh(2) by (intro paint_nothing [OF wf(2) len(2)]) (simp add: wf_ndarray_def)
  show ?thesis
    by (simp add: onselect_result [OF ok st] Let_def m o)
qed

theorem empty_selection_only_records_path_witness:
  "state_ok example_state \<and>
   (erasing example_state \<or>
    \<not> isl (np_store (dtype (mask_arr example_state)) (cur_class_idx example_state))) \<and>
   \<not> contains_point example_toolkit (Path far_away) (0, 0) \<and>
   \<not> contains_point example_toolkit (Path far_away) (1, 0) \<and>
   \<not> contains_point example_toolkit (Path far_away) (0, 1) \<and>
   \<not> contains_point example_toolkit (Path far_away) (1, 1) \<and>
   mask_arr (state_after (onselect example_toolkit example_state far_away))
     = mask_arr example_state \<and>
   overlay (state_after (onselect example_toolkit example_state far_away))
     = overlay example_state \<and>
   paths_adding (state_after (onselect example_toolkit example_state far_away))
     = [Path far_away] \<and>
   paths_erasing (state_after (onselect example_toolkit example_state far_away)) = []"
proof -
  have cast: "erasing example_state \<or>
      \<not> isl (np_store (dtype (mask_arr example_state)) (cur_class_idx example_state))"
    by (simp add: example_state_def np_store_one)
  have outside: "\<not> contains_point example_toolkit (Path far_away) (0, 0)"
    "\<not> contains_point example_toolkit (Path far_away) (1, 0)"
    "\<not> contains_point example_toolkit (Path far_away) (0, 1)"
    "\<not> contains_point example_toolkit (Path far_away) (1, 1)"
    by (simp_all add: example_toolkit_def box_contains_def far_away_def)
  have none: "\<forall>r c. r < fst (img_shape example_state) \<and> c < snd (img_shape example_state) \<longrightarrow>
                 \<not> contains_point example_toolkit (Path far_away) (c, r)"
    using outside by (auto simp: example_state_def less_Suc_eq eval_nat_numeral)
  from empty_selection_only_records_path [OF example_state_ok cast none]
  obtain s' where "onselect example_toolkit example_state far_away = Inr s'"
    "mask_arr s' = mask_arr example_state" "overlay s' = overlay example_state"
    "paths_adding s' = paths_adding example_state @ [Path far_away]"
    "paths_erasing s' = paths_erasing example_state"
    by (fastforce simp: example_state_def)
  then show ?thesis
    using example_state_ok cast outside by (simp add: example_state_def)
qed

text \<open>
  The claim as first stated fails for a seed mask of element type \<^verbatim>\<open>uint8\<close> and 256
  classes: with the last class current, the conversion of \<open>256\<close> raises
  \<open>OverflowError\<close> although the polygon contains no pixel, and the polygon is not
  recorded.
\<close>

theorem empty_selection_only_records_path_counterexample:
  "init example_toolkit uint8_args = Inr uint8_state \<and>
   set_current_class uint8_state (PInt 256) = Inr uint8_class256 \<and>
   \<not> erasing uint8_class256 \<and>
   \<not> contains_point example_toolkit (Path far_away) (0, 0) \<and>
   \<not> contains_point example_toolkit (Path far_away) (1, 0) \<and>
   \<not> contains_point example_toolkit (Path far_away) (0, 1) \<and>
   \<not> contains_point example_toolkit (Path far_away) (1, 1) \<and>
   onselect example_toolkit uint8_class256 far_away
     = Inl (OverflowError,
            uint8_class256\<lparr>indices := Some \<lparr>shape = (2, 2), dtype = NpBool,
                                             data = [False, False, False, False]\<rparr>\<rparr>) \<and>
   paths_adding uint8_class256 = []"
proof -
  have "onselect example_toolkit uint8_class256 far_away
     = Inl (OverflowError,
            uint8_class256\<lparr>indices := Some \<lparr>shape = (2, 2), dtype = NpBool,
                                             data = [False, False, False, False]\<rparr>\<rparr>)"
    by (subst onselect_raises [OF uint8_class256_ok uint8_overflow])
      (simp add: uint8_class256_def uint8_state_def example_state_def example_toolkit_def
        box_contains_def far_away_def make_pix_2_2)
  then show ?thesis
    using uint8_state_init uint8_set_class256
    by (simp add: uint8_class256_def uint8_state_def example_state_def example_toolkit_def
        box_contains_def far_away_def)
qed

section \<open>The overlay follows the mask\<close>

text \<open>
  Claim C2, amended. After a construction that returned, and after any sequence of
  selections and property writes that follows, the overlay is the function \<open>overlay_of\<close>
  of the label mask and the colour table in every cell: fully transparent where the
  mask is \<open>0\<close>, the colour-table entry of \<open>k\<close> where the mask holds \<open>k\<close> between \<open>1\<close> and
  \<open>N\<close>; and every mask cell lies between \<open>0\<close> and \<open>N\<close>. The preconditions are that a
  seed mask passed by the caller has the image's first two dimensions and holds values
  between \<open>0\<close> and \<open>N\<close>, and that the element type of the mask holds every class index
  from \<open>0\<close> to \<open>N\<close> as it is.
\<close>

theorem overlay_in_sync_with_mask:
  assumes "init tk a = Inr s0" and "seed_fits a" and "seed_in_range a (n_classes s0)"
    and "stores_exactly (dtype (mask_arr s0)) (n_classes s0)"
  shows "in_sync (run tk s0 evs)"
  using assms by (intro in_sync_run init_state_ok init_in_sync)

theorem overlay_in_sync_with_mask_witness:
  "seed_fits seeded_args \<and>
   (case init example_toolkit seeded_args of
      Inl e \<Rightarrow> False
    | Inr s0 \<Rightarrow> seed_in_range seeded_args (n_classes s0) \<and>
        stores_exactly (dtype (mask_arr s0)) (n_classes s0) \<and>
        in_sync (run example_toolkit s0
                   [Select left_column, SetErasing (PBool True), Select centre_square]))"
proof -
  have fits: "seed_fits seeded_args"
    by (simp add: seed_fits_def seeded_args_def example_args_def wf_ndarray_def)
  obtain s0 where s0: "init example_toolkit seeded_args = Inr s0"
    by (simp add: init_defs seeded_args_def example_args_def example_toolkit_def eval_nat_numeral)
  have n: "n_classes s0 = 2"
    using init_fields(1,2) [OF s0]
    by (simp add: seeded_args_def example_args_def init_classes_def py_range_def)
  have seed: "seed_in_range seeded_args (n_classes s0)"
    by (simp add: n seed_in_range_def seeded_args_def)
  have exact: "stores_exactly (dtype (mask_arr s0)) (n_classes s0)"
    using init_fields(6) [OF s0]
    by (simp add: n seeded_args_def stores_exactly_def py_range_def np_store_def
        eval_nat_numeral)
  from overlay_in_sync_with_mask [OF s0 fits seed exact,
      of "[Select left_column, SetErasing (PBool True), Select centre_square]"]
    fits s0 seed exact
  show ?thesis by simp
qed

text \<open>
  The claim as first stated fails for a seed mask of zeros of element type \<^verbatim>\<open>bool\<close>:
  after the selection of \<open>left_column\<close> with the second class current, a contained cell
  of the mask reads \<open>1\<close> while the overlay holds the colour of class \<open>2\<close>.
\<close>

theorem overlay_in_sync_with_mask_counterexample:
  "init example_toolkit bool_seed_args = Inr bool_seed_state \<and>
   seed_fits bool_seed_args \<and>
   seed_in_range bool_seed_args (n_classes bool_seed_state) \<and>
   run example_toolkit bool_seed_state [SetCurrentClass (PInt 2), Select left_column]
     = bool_seed_painted \<and>
   cell (mask_arr bool_seed_painted) 0 0 = 1 \<and>
   cell (overlay bool_seed_painted) 0 0 = mask_colors bool_seed_painted ! 1 \<and>
   overlay_of (mask_colors bool_seed_painted) 1 = mask_colors bool_seed_painted ! 0 \<and>
   mask_colors bool_seed_painted ! 0 \<noteq> mask_colors bool_seed_painted ! 1 \<and>
   \<not> in_sync bool_seed_painted"
proof -
  have run: "run example_toolkit bool_seed_state [SetCurrentClass (PInt 2), Select left_column]
      = bool_seed_painted"
    by (simp add: bool_seed_set_class2 bool_seed_select_left)
  have rest: "seed_fits bool_seed_args"
    "seed_in_range bool_seed_args (n_classes bool_seed_state)"
    "cell (mask_arr bool_seed_painted) 0 0 = 1"
    "cell (overlay bool_seed_painted) 0 0 = mask_colors bool_seed_painted ! 1"
    "overlay_of (mask_colors bool_seed_painted) 1 = mask_colors bool_seed_painted ! 0"
    "mask_colors bool_seed_painted ! 0 \<noteq> mask_colors bool_seed_painted ! 1"
    "\<not> in_sync bool_seed_painted"
    by (simp_all add: seed_fits_def seed_in_range_def bool_seed_args_def example_args_def
        wf_ndarray_def bool_seed_painted_def bool_seed_class2_def bool_seed_state_def
        example_state_def cell_def overlay_of_def in_sync_def)
  from bool_seed_state_init run rest show ?thesis by blast
qed

section \<open>The current class and the erasing flag\<close>

text \<open>
  Claim C5, amended. For a registry of \<open>N\<close> classes and a 1-based index \<open>i\<close> between
  \<open>1\<close> and \<open>N\<close>: if the identifier at position \<open>i - 1\<close> is a string, writing it to
  \<^verbatim>\<open>current_class\<close> and reading the property yields that identifier; and writing the
  integer \<open>i\<close> and reading the property yields the identifier at position \<open>i - 1\<close>.
  An integer identifier is not covered: the setter takes every integer as a 1-based
  index.
\<close>

theorem current_class_round_trip:
  assumes n: "n_classes s = length (classes s)" and i: "1 \<le> i" "i \<le> int (n_classes s)"
  shows "(\<forall>x. classes s ! nat (i - 1) = PStr x \<longrightarrow>
            (\<exists>s'. set_current_class s (PStr x) = Inr s' \<and>
                  get_current_class s' = Inr (PStr x))) \<and>
         (\<exists>s'. set_current_class s (PInt i) = Inr s' \<and>
               get_current_class s' = Inr (classes s ! nat (i - 1)))"
proof (intro conjI allI impI)
  fix x assume x: "classes s ! nat (i - 1) = PStr x"
  have "nat (i - 1) < length (classes s)" using n i by simp
  then have mem: "PStr x \<in> set (classes s)" using x by (metis nth_mem)
  then obtain j where j: "list_index (classes s) (PStr x) = Some j"
    using list_index_member by fastforce
  then have jlt: "j < length (classes s)" and jth: "classes s ! j = PStr x"
    by (simp_all add: list_index_less)
  have "set_current_class s (PStr x) = Inr (s\<lparr>cur_class_idx := int j + 1\<rparr>)"
    using mem j by (simp add: set_current_class_def)
  moreover have "get_current_class (s\<lparr>cur_class_idx := int j + 1\<rparr>) = Inr (PStr x)"
    using jlt jth by (simp add: get_current_class_def py_getitem_nat)
  ultimately show "\<exists>s'. set_current_class s (PStr x) = Inr s' \<and>
                        get_current_class s' = Inr (PStr x)"
    by blast
next
  have "set_current_class s (PInt i) = Inr (s\<lparr>cur_class_idx := i\<rparr>)"
    using i by (simp add: set_current_class_def)
  moreover have "get_current_class (s\<lparr>cur_class_idx := i\<rparr>) = Inr (classes s ! nat (i - 1))"
    using n i by (simp add: get_current_class_def py_getitem_nat)
  ultimately show "\<exists>s'. set_current_class s (PInt i) = Inr s' \<and>
                        get_current_class s' = Inr (classes s ! nat (i - 1))"
    by blast
qed

theorem current_class_round_trip_witness:
  "n_classes named_state = length (classes named_state) \<and> (1::int) \<le> 2 \<and>
   2 \<le> int (n_classes named_state) \<and>
   classes named_state ! nat (2 - 1) = PStr ''nucleus'' \<and>
   get_current_class (state_after (set_current_class named_state (PStr ''nucleus'')))
     = Inr (PStr ''nucleus'') \<and>
   get_current_class (state_after (set_current_class named_state (PInt 2)))
     = Inr (PStr ''nucleus'')"
proof -
  have h: "n_classes named_state = length (classes named_state)" "(1::int) \<le> 2"
    "2 \<le> int (n_classes named_state)"
    by (simp_all add: named_state_def example_state_def)
  have x: "classes named_state ! nat (2 - 1) = PStr ''nucleus''"
    by (simp add: named_state_def example_state_def)
  from current_class_round_trip [OF h] x
  obtain s' s'' where
    "set_current_class named_state (PStr ''nucleus'') = Inr s'"
    "get_current_class s' = Inr (PStr ''nucleus'')"
    "set_current_class named_state (PInt 2) = Inr s''"
    "get_current_class s'' = Inr (PStr ''nucleus'')"
    by auto
  then show ?thesis using h x by simp
qed

text \<open>
  The claim as first stated fails for the registry \<open>[0, 1]\<close> that the class count \<open>2\<close>
  produces: writing the identifier at position \<open>0\<close> raises, and writing the identifier
  at position \<open>1\<close>, which is \<open>1\<close>, selects the first class, so that the property reads \<open>0\<close>.
\<close>

theorem current_class_round_trip_counterexample:
  "init example_toolkit example_args = Inr example_state \<and>
   classes example_state ! 0 = PInt 0 \<and>
   set_current_class example_state (PInt 0) = Inl (ValueError, example_state) \<and>
   classes example_state ! 1 = PInt 1 \<and>
   set_current_class example_state (PInt 1) = Inr example_state \<and>
   get_current_class example_state = Inr (PInt 0)"
  by (simp add: init_defs example_toolkit_def example_args_def example_state_def
      get_current_class_def eval_nat_numeral)

text \<open>
  Claim C6. Writing the integer \<open>0\<close>, the integer \<open>N + 1\<close> or a string that is not in the
  registry to \<^verbatim>\<open>current_class\<close> raises \<open>ValueError\<close> and leaves the object, and so the
  current class, as it was; writing a value that is not a \<open>bool\<close> to \<^verbatim>\<open>erasing\<close> raises
  \<open>TypeError\<close> and leaves the object, and so the flag, as it was.
\<close>

theorem invalid_writes_raise_and_keep_state:
  "set_current_class s (PInt 0) = Inl (ValueError, s) \<and>
   set_current_class s (PInt (int (n_classes s) + 1)) = Inl (ValueError, s) \<and>
   (PStr x \<notin> set (classes s) \<longrightarrow> set_current_class s (PStr x) = Inl (ValueError, s)) \<and>
   (\<not> isinstance_bool v \<longrightarrow> set_erasing s v = Inl (TypeError, s))"
  by (simp add: set_current_class_def set_erasing_def)

theorem invalid_writes_raise_and_keep_state_witness:
  "PStr ''tree'' \<notin> set (classes example_state) \<and> \<not> isinstance_bool (PInt 1) \<and>
   set_current_class example_state (PInt 0) = Inl (ValueError, example_state) \<and>
   set_current_class example_state (PInt 3) = Inl (ValueError, example_state) \<and>
   set_current_class example_state (PStr ''tree'') = Inl (ValueError, example_state) \<and>
   set_erasing example_state (PInt 1) = Inl (TypeError, example_state)"
proof -
  have h: "PStr ''tree'' \<notin> set (classes example_state)" "\<not> isinstance_bool (PInt 1)"
    by (simp_all add: example_state_def)
  have n: "int (n_classes example_state) + 1 = 3" by (simp add: example_state_def)
  from invalid_writes_raise_and_keep_state [of example_state "''tree''" "PInt 1"] h n
  show ?thesis by simp
qed

text \<open>
  Claim C10. Writing a value that is neither a string nor an integer to
  \<^verbatim>\<open>current_class\<close>, such as a float or \<open>None\<close>, raises nothing and leaves the object,
  and so the current class, as it was.
\<close>

theorem set_current_class_ignores_other_types:
  "\<not> isinstance_str v \<Longrightarrow> \<not> isinstance_Integral v \<Longrightarrow> set_current_class s v = Inr s"
  by (simp add: set_current_class_def)

theorem set_current_class_ignores_other_types_witness:
  "\<not> isinstance_str (PFloat (5 / 2)) \<and> \<not> isinstance_Integral (PFloat (5 / 2)) \<and>
   set_current_class example_state (PFloat (5 / 2)) = Inr example_state \<and>
   \<not> isinstance_str PNone \<and> \<not> isinstance_Integral PNone \<and>
   set_current_class example_state PNone = Inr example_state"
  using set_current_class_ignores_other_types [of "PFloat (5 / 2)" example_state]
    set_current_class_ignores_other_types [of PNone example_state]
  by simp

text \<open>
  Claim C8, amended. After a construction that returned, and after any sequence of calls
  that follows, the registry is the one construction built (the numbers \<open>0, \<dots>, n - 1\<close>
  for a class count \<open>n\<close>, the list as passed otherwise), the current class index lies
  between \<open>1\<close> and \<open>N\<close> and so is never the background index \<open>0\<close>, and reading
  \<^verbatim>\<open>current_class\<close> returns the member of the registry at that index less one.
\<close>

theorem current_class_index_never_background:
  assumes "init tk a = Inr s0"
  shows "classes (run tk s0 evs) = init_classes (arg_classes a) \<and>
         (case arg_classes a of
            Count n \<Rightarrow> classes (run tk s0 evs) = map PInt (py_range n)
          | Names xs \<Rightarrow> classes (run tk s0 evs) = xs) \<and>
         1 \<le> cur_class_idx (run tk s0 evs) \<and>
         cur_class_idx (run tk s0 evs) \<le> int (length (classes (run tk s0 evs))) \<and>
         get_current_class (run tk s0 evs)
           = Inr (classes (run tk s0 evs) ! nat (cur_class_idx (run tk s0 evs) - 1)) \<and>
         classes (run tk s0 evs) ! nat (cur_class_idx (run tk s0 evs) - 1)
           \<in> set (classes (run tk s0 evs))"
proof -
  let ?cls = "init_classes (arg_classes a)"
  let ?s = "run tk s0 evs"
  have "index_ok s0 ?cls"
    using init_fields(1,2,9) [OF assms] init_fields(3) [OF assms]
    by (simp add: index_ok_def Suc_le_eq)
  then have ok: "index_ok ?s ?cls" by (rule index_ok_run)
  then have f: "classes ?s = ?cls" "n_classes ?s = length ?cls"
    "1 \<le> cur_class_idx ?s" "cur_class_idx ?s \<le> int (length ?cls)"
    by (simp_all add: index_ok_def)
  have g: "get_current_class ?s = Inr (classes ?s ! nat (cur_class_idx ?s - 1))"
    using f by (simp add: get_current_class_def py_getitem_nat)
  have "nat (cur_class_idx ?s - 1) < length (classes ?s)" using f by simp
  then have m: "classes ?s ! nat (cur_class_idx ?s - 1) \<in> set (classes ?s)" by (rule nth_mem)
  have c: "(case arg_classes a of
            Count n \<Rightarrow> classes ?s = map PInt (py_range n)
          | Names xs \<Rightarrow> classes ?s = xs)"
    using f(1) by (simp add: init_classes_def split: classes_spec.splits)
  from f g m c show ?thesis by simp
qed

theorem current_class_index_never_background_witness:
  "init example_toolkit example_args = Inr example_state \<and>
   classes (run example_toolkit example_state [SetCurrentClass (PInt 0), SetCurrentClass (PInt 2)])
     = [PInt 0, PInt 1] \<and>
   1 \<le> cur_class_idx (run example_toolkit example_state
          [SetCurrentClass (PInt 0), SetCurrentClass (PInt 2)]) \<and>
   cur_class_idx (run example_toolkit example_state
          [SetCurrentClass (PInt 0), SetCurrentClass (PInt 2)]) \<le> 2"
proof -
  let ?s = "run example_toolkit example_state
              [SetCurrentClass (PInt 0), SetCurrentClass (PInt 2)]"
  have cls: "init_classes (arg_classes example_args) = [PInt 0, PInt 1]"
    by (simp add: example_args_def init_classes_def py_range_def eval_nat_numeral)
  note T = current_class_index_never_background [OF example_state_init,
      of "[SetCurrentClass (PInt 0), SetCurrentClass (PInt 2)]"]
  have a: "classes ?s = [PInt 0, PInt 1]"
    using T unfolding cls by blast
  have b: "1 \<le> cur_class_idx ?s"
    using T by blast
  have "cur_class_idx ?s \<le> int (length (classes ?s))"
    using T by blast
  then have c: "cur_class_idx ?s \<le> 2"
    unfolding a by simp
  from a b c example_state_init show ?thesis by blast
qed

text \<open>
  The claim as first stated fails for a class count: the registry built for the count
  \<open>2\<close> contains the identifier \<open>0\<close>, and reading \<^verbatim>\<open>current_class\<close> right after
  construction yields it.
\<close>

theorem current_class_index_never_background_counterexample:
  "init example_toolkit example_args = Inr example_state \<and>
   arg_classes example_args = Count 2 \<and>
   PInt 0 \<in> set (classes example_state) \<and>
   get_current_class example_state = Inr (PInt 0)"
  by (simp add: init_defs example_toolkit_def example_args_def example_state_def
      get_current_class_def eval_nat_numeral)

section \<open>Construction with an explicit colour list\<close>

text \<open>
  Claim C9, amended. The length of an explicit colour list is not checked: construction
  with a list longer than the number of classes returns, for at least one class, a seed
  mask that is absent or of the image's shape, and mouse buttons that resolve; the
  colour table keeps every colour passed, with the alpha channel overwritten.
\<close>

theorem init_accepts_longer_color_list:
  assumes cols: "arg_mask_colors a = Some (d, cs)"
    and n: "0 < length (init_classes (arg_classes a))"
           "length (init_classes (arg_classes a)) < length cs"
    and m: "(case arg_mask a of None \<Rightarrow> True | Some m \<Rightarrow> shape m = arg_img a)"
    and b: "resolve_button (arg_pan_mousebutton a) = Inr bp"
           "resolve_button (arg_lasso_mousebutton a) = Inr bl"
  shows "\<exists>s. init tk a = Inr s \<and>
             mask_colors s = set_alpha d (arg_mask_alpha a) cs \<and>
             n_classes s < length (mask_colors s)"
proof -
  have "length (init_classes (arg_classes a)) \<le> length cs" using n(2) by simp
  from init_returns [OF cols n(1) this m b]
  obtain s where s: "init tk a = Inr s" by blast
  have "mask_colors s = set_alpha d (arg_mask_alpha a) cs"
    using init_fields(4) [OF s] cols by simp
  moreover have "n_classes s < length (mask_colors s)"
    using calculation init_fields(1,2) [OF s] n(2) by (simp add: set_alpha_def)
  ultimately show ?thesis using s by blast
qed

theorem init_accepts_longer_color_list_witness:
  "arg_mask_colors long_colors_args
     = Some (ColFloat, [(1, 0, 0, 1), (0, 1, 0, 1), (0, 0, 1, 1)]) \<and>
   0 < length (init_classes (arg_classes long_colors_args)) \<and>
   length (init_classes (arg_classes long_colors_args))
     < length [(1, 0, 0, 1), (0, 1, 0, 1), (0, 0, 1, 1) :: rgba] \<and>
   arg_mask long_colors_args = None \<and>
   resolve_button (arg_pan_mousebutton long_colors_args) = Inr 2 \<and>
   resolve_button (arg_lasso_mousebutton long_colors_args) = Inr 1 \<and>
   (case init example_toolkit long_colors_args of
      Inl e \<Rightarrow> False
    | Inr s \<Rightarrow> n_classes s = 2 \<and>
        mask_colors s = [(1, 0, 0, 3 / 4), (0, 1, 0, 3 / 4), (0, 0, 1, 3 / 4)])"
proof -
  have cols: "arg_mask_colors long_colors_args
      = Some (ColFloat, [(1, 0, 0, 1), (0, 1, 0, 1), (0, 0, 1, 1)])"
    by (simp add: long_colors_args_def)
  have cls: "init_classes (arg_classes long_colors_args) = [PInt 0, PInt 1]"
    by (simp add: long_colors_args_def example_args_def init_classes_def py_range_def
        eval_nat_numeral)
  have n: "0 < length (init_classes (arg_classes long_colors_args))"
    "length (init_classes (arg_classes long_colors_args))
       < length [(1, 0, 0, 1), (0, 1, 0, 1), (0, 0, 1, 1) :: rgba]"
    by (simp_all add: cls)
  have m: "arg_mask long_colors_args = None"
    by (simp add: long_colors_args_def example_args_def)
  then have m': "(case arg_mask long_colors_args of None \<Rightarrow> True
                  | Some m \<Rightarrow> shape m = arg_img long_colors_args)"
    by simp
  have b: "resolve_button (arg_pan_mousebutton long_colors_args) = Inr 2"
    "resolve_button (arg_lasso_mousebutton long_colors_args) = Inr 1"
    by (simp_all add: long_colors_args_def example_args_def resolve_button_def button_dict_def
        lower_char_def)
  from init_accepts_longer_color_list [OF cols n m' b, of example_toolkit]
  obtain s where s: "init example_toolkit long_colors_args = Inr s"
    and c: "mask_colors s = set_alpha ColFloat (arg_mask_alpha long_colors_args)
              [(1, 0, 0, 1), (0, 1, 0, 1), (0, 0, 1, 1)]"
    by blast
  have "n_classes s = 2" using init_fields(1,2) [OF s] cls by simp
  moreover have "mask_colors s = [(1, 0, 0, 3 / 4), (0, 1, 0, 3 / 4), (0, 0, 1, 3 / 4)]"
    using c by (simp add: set_alpha_def alpha_as_def long_colors_args_def example_args_def)
  ultimately show ?thesis using s cols n m b by simp
qed

text \<open>
  The claim as first stated fails for a list shorter than the number of classes: with
  two classes, one colour and the default mask, the overlay loop reads the colour of
  class \<open>2\<close> and the constructor raises \<open>IndexError\<close>.
\<close>

theorem init_accepts_longer_color_list_counterexample:
  "arg_mask short_colors_args = None \<and>
   init_classes (arg_classes short_colors_args) = [PInt 0, PInt 1] \<and>
   arg_mask_colors short_colors_args = Some (ColFloat, [(1, 0, 0, 1)]) \<and>
   init example_toolkit short_colors_args = Inl IndexError"
  by (simp add: init_defs example_toolkit_def example_args_def short_colors_args_def
      eval_nat_numeral)

end
